theory Spec2Isabelle
  imports Main "HOL-Library.Word" "HOL-Library.Char_ord" "HOL-Library.List_Lexorder"
    "HOL-Library.AList"
begin

section \<open>Sailinit: the port registry\<close>

text \<open>
  The registry subsystem of the tool: a JSON state file that maps absolute project
  directories to a port suffix and keeps the largest suffix handed out so far.

  Go's \<^verbatim>\<open>int\<close> is taken at its 64-bit width: \<open>+\<close> and \<open>-\<close> wrap, comparisons
  read the word as two's complement (\<open>sint\<close>). Strings are byte lists, as Go's are.
\<close>

type_synonym goint = "64 word"

subsection \<open>Errors\<close>

text \<open>
  Every error value the modelled functions can return. Go's \<^verbatim>\<open>error\<close> result is an
  \<open>error option\<close> (\<open>None\<close> is \<^verbatim>\<open>nil\<close>); a result tuple that ends in an error is
  a sum with the error on the left. \<open>PanicNilMap\<close> stands for the run-time panic of an
  assignment to an entry of a nil map: the call does not return.
\<close>

datatype error =
    SuffixNegative goint
  | SuffixTooLarge goint
  | NotRegistered string
  | HomeDirError
  | GetwdError
  | ReadError
  | UnmarshalError
  | WriteError
  | PanicNilMap

fun isRangeError :: "error \<Rightarrow> bool" where
  "isRangeError (SuffixNegative _) = True"
| "isRangeError (SuffixTooLarge _) = True"
| "isRangeError _ = False"

subsection \<open>ValidateSuffix\<close>

definition MaxPortSuffix :: goint where
  "MaxPortSuffix = 47435"

definition ValidateSuffix :: "goint \<Rightarrow> error option" where
  "ValidateSuffix suffix =
     (if sint suffix < 0 then Some (SuffixNegative suffix)
      else if sint MaxPortSuffix < sint suffix then Some (SuffixTooLarge suffix)
      else None)"

subsection \<open>Bytes, UTF-8 and white space\<close>

definition byte :: "char \<Rightarrow> nat" where
  "byte c = of_char c"

definition cont :: "char \<Rightarrow> bool" where
  "cont c = (128 \<le> byte c \<and> byte c \<le> 191)"

text \<open>
  \<open>runeLen s\<close> is the width of the well-formed UTF-8 sequence at the head of \<open>s\<close>, and
  \<open>0\<close> where Go's \<^verbatim>\<open>utf8.DecodeRune\<close> answers \<^verbatim>\<open>(RuneError, 1)\<close>: a stray
  continuation byte, an overlong form, a surrogate, a value past U+10FFFF or a
  sequence cut short.
\<close>

fun runeLen :: "string \<Rightarrow> nat" where
  "runeLen [] = 0"
| "runeLen (c # cs) =
     (let b = byte c in
      if b < 128 then 1
      else if 194 \<le> b \<and> b \<le> 223 then
        (case cs of c1 # _ \<Rightarrow> if cont c1 then 2 else 0 | _ \<Rightarrow> 0)
      else if 224 \<le> b \<and> b \<le> 239 then
        (case cs of c1 # c2 # _ \<Rightarrow>
           if (if b = 224 then 160 \<le> byte c1 \<and> byte c1 \<le> 191
               else if b = 237 then 128 \<le> byte c1 \<and> byte c1 \<le> 159
               else cont c1) \<and> cont c2
           then 3 else 0
         | _ \<Rightarrow> 0)
      else if 240 \<le> b \<and> b \<le> 244 then
        (case cs of c1 # c2 # c3 # _ \<Rightarrow>
           if (if b = 240 then 144 \<le> byte c1 \<and> byte c1 \<le> 191
               else if b = 244 then 128 \<le> byte c1 \<and> byte c1 \<le> 143
               else cont c1) \<and> cont c2 \<and> cont c3
           then 4 else 0
         | _ \<Rightarrow> 0)
      else 0)"

text \<open>U+FFFD, the replacement rune, in UTF-8.\<close>

definition runeError :: string where
  "runeError = [CHR 0xEF, CHR 0xBF, CHR 0xBD]"

text \<open>
  What encoding/json does to a string on both ways, writing and reading: "String
  values encode as JSON strings coerced to valid UTF-8, replacing invalid bytes with
  the Unicode replacement rune". Each byte that starts no well-formed sequence
  becomes U+FFFD; well-formed sequences are kept.
\<close>

fun toValidUTF8 :: "string \<Rightarrow> string" where
  "toValidUTF8 [] = []"
| "toValidUTF8 (c # cs) =
     (case runeLen (c # cs) of
        0 \<Rightarrow> runeError @ toValidUTF8 cs
      | Suc n \<Rightarrow> c # take n cs @ toValidUTF8 (drop n cs))"

definition validUTF8 :: "string \<Rightarrow> bool" where
  "validUTF8 s = (toValidUTF8 s = s)"

text \<open>
  The white space of \<^verbatim>\<open>unicode.IsSpace\<close> (and of fmt's scanner), by its UTF-8
  encodings: \<open>spaceLen s\<close> is the width of the white-space rune at the head of
  \<open>s\<close>, \<open>0\<close> when there is none. TAB, LF, VT, FF, CR, SPACE, U+0085, U+00A0, U+1680,
  U+2000..U+200A, U+2028, U+2029, U+202F, U+205F, U+3000.
\<close>

fun spaceLen :: "string \<Rightarrow> nat" where
  "spaceLen [] = 0"
| "spaceLen (c # cs) =
     (let b = byte c in
      if (9 \<le> b \<and> b \<le> 13) \<or> b = 32 then 1
      else if b = 194 then
        (case cs of c1 # _ \<Rightarrow> if byte c1 = 133 \<or> byte c1 = 160 then 2 else 0 | _ \<Rightarrow> 0)
      else if b = 225 then
        (case cs of c1 # c2 # _ \<Rightarrow> if byte c1 = 154 \<and> byte c2 = 128 then 3 else 0
         | _ \<Rightarrow> 0)
      else if b = 226 then
        (case cs of c1 # c2 # _ \<Rightarrow>
           if byte c1 = 128 \<and>
              ((128 \<le> byte c2 \<and> byte c2 \<le> 138) \<or> byte c2 = 168 \<or> byte c2 = 169
               \<or> byte c2 = 175)
           then 3
           else if byte c1 = 129 \<and> byte c2 = 159 then 3 else 0
         | _ \<Rightarrow> 0)
      else if b = 227 then
        (case cs of c1 # c2 # _ \<Rightarrow> if byte c1 = 128 \<and> byte c2 = 128 then 3 else 0
         | _ \<Rightarrow> 0)
      else 0)"

text \<open>
  The same runes read from the end of the string, as \<^verbatim>\<open>utf8.DecodeLastRune\<close> does
  (back to the nearest byte that starts a rune, which must then end at the end): the
  argument is the string reversed.
\<close>

fun spaceLenRev :: "string \<Rightarrow> nat" where
  "spaceLenRev [] = 0"
| "spaceLenRev (c # cs) =
     (if byte c < 128 then spaceLen [c]
      else (case cs of
              c1 # c2 # _ \<Rightarrow>
                if cont c1 then (if spaceLen [c2, c1, c] = 3 then 3 else 0)
                else (if spaceLen [c1, c] = 2 then 2 else 0)
            | [c1] \<Rightarrow> (if spaceLen [c1, c] = 2 then 2 else 0)
            | [] \<Rightarrow> 0))"

fun trimLeft :: "string \<Rightarrow> string" where
  "trimLeft [] = []"
| "trimLeft (c # cs) =
     (case spaceLen (c # cs) of 0 \<Rightarrow> c # cs | Suc n \<Rightarrow> trimLeft (drop n cs))"

fun trimRightRev :: "string \<Rightarrow> string" where
  "trimRightRev [] = []"
| "trimRightRev (c # cs) =
     (case spaceLenRev (c # cs) of 0 \<Rightarrow> c # cs | Suc n \<Rightarrow> trimRightRev (drop n cs))"

text \<open>\<^verbatim>\<open>strings.TrimSpace\<close>: all leading and trailing white space removed.\<close>

definition TrimSpace :: "string \<Rightarrow> string" where
  "TrimSpace s = rev (trimRightRev (rev (trimLeft s)))"

subsection \<open>Paths (path/filepath on Unix)\<close>

fun splitSlash :: "string \<Rightarrow> string list" where
  "splitSlash [] = [[]]"
| "splitSlash (c # cs) =
     (if c = CHR ''/'' then [] # splitSlash cs
      else (case splitSlash cs of e # es \<Rightarrow> (c # e) # es | [] \<Rightarrow> [[c]]))"

fun joinSlash :: "string list \<Rightarrow> string" where
  "joinSlash [] = []"
| "joinSlash [e] = e"
| "joinSlash (e # es) = e @ CHR ''/'' # joinSlash es"

text \<open>
  One element of the path against the elements kept so far: empty elements and
  \<^verbatim>\<open>.\<close> go, \<^verbatim>\<open>..\<close> takes the element before it away, is dropped at the root and
  is kept at the front of a relative path.
\<close>

definition cleanStep :: "bool \<Rightarrow> string list \<Rightarrow> string \<Rightarrow> string list" where
  "cleanStep rooted kept e =
     (if e = [] \<or> e = ''.'' then kept
      else if e = ''..'' then
        (if kept \<noteq> [] \<and> last kept \<noteq> ''..'' then butlast kept
         else if rooted then kept
         else kept @ [e])
      else kept @ [e])"

definition Clean :: "string \<Rightarrow> string" where
  "Clean path =
     (if path = [] then ''.''
      else
        (let rooted = (hd path = CHR ''/'');
             out = (if rooted then ''/'' else []) @
                   joinSlash (foldl (cleanStep rooted) [] (splitSlash path))
         in if out = [] then ''.'' else out))"

text \<open>\<^verbatim>\<open>filepath.Join\<close> of two elements: empty elements are ignored, the rest is cleaned.\<close>

definition Join :: "string \<Rightarrow> string \<Rightarrow> string" where
  "Join a b =
     (if a \<noteq> [] then Clean (a @ CHR ''/'' # b)
      else if b \<noteq> [] then Clean b
      else [])"

definition IsAbs :: "string \<Rightarrow> bool" where
  "IsAbs path = (path \<noteq> [] \<and> hd path = CHR ''/'')"

subsection \<open>JSON documents\<close>

text \<open>
  A JSON text by what it denotes. A number literal is \<open>JInt\<close> when it has neither
  fraction nor exponent (Go's \<^verbatim>\<open>strconv.ParseInt\<close> reads exactly those), \<open>JFloat\<close>
  otherwise. An object keeps its members in the order of the text, repeated keys
  included; strings are kept as the text has them, before any coercion to UTF-8.
\<close>

datatype json =
    JNull
  | JBool bool
  | JInt int
  | JFloat
  | JString string
  | JArray "json list"
  | JObject "(string \<times> json) list"

subsection \<open>The world: environment and file system\<close>

text \<open>
  The content of a regular file is either its bytes, for a file that is not a JSON
  text (\<^verbatim>\<open>json.Unmarshal\<close> answers a syntax error), or the JSON document its text
  denotes. The second form abstracts from the lexical layer of JSON only: white
  space, escapes and the digits of numbers.
\<close>

datatype content = NonJSON string | JSONText json

text \<open>
  What a path names. \<open>NotExist\<close>: nothing, below directories (the system calls
  answer ENOENT, which \<^verbatim>\<open>os.IsNotExist\<close> recognises). \<open>NotDir\<close>: nothing, because a
  component on the way is a regular file (they answer ENOTDIR, which
  \<^verbatim>\<open>os.IsNotExist\<close> does not recognise). \<open>StatFails\<close>: \<^verbatim>\<open>os.Stat\<close> is refused (a
  directory on the way may not be searched, say). \<open>NoAccess\<close>: the path exists and
  this process may not open it. A directory cannot be read or written as a file.
\<close>

datatype node = NotExist | NotDir | StatFails | Directory | NoAccess | Regular content

text \<open>
  What the next \<^verbatim>\<open>os.WriteFile\<close> runs into: nothing, a failure to open the file
  (it stays as it was), or a failure while writing (the file has been truncated by
  then and holds at most the beginning of the data).
\<close>

datatype fault = NoFault | OpenFault | WriteFault

record world =
  testStatePathOverride :: string
  envHOME :: string
  cwd :: "string option"
  fs :: "string \<Rightarrow> node"
  diskFault :: fault

datatype statResult = StatOK | StatNotExist | StatError

definition osStat :: "world \<Rightarrow> string \<Rightarrow> statResult" where
  "osStat w path =
     (case fs w path of
        NotExist \<Rightarrow> StatNotExist
      | NotDir \<Rightarrow> StatError
      | StatFails \<Rightarrow> StatError
      | _ \<Rightarrow> StatOK)"

datatype readResult = ReadOK content | ReadNotExist | ReadFails

definition osReadFile :: "world \<Rightarrow> string \<Rightarrow> readResult" where
  "osReadFile w path =
     (case fs w path of
        NotExist \<Rightarrow> ReadNotExist
      | Regular c \<Rightarrow> ReadOK c
      | _ \<Rightarrow> ReadFails)"

text \<open>
  \<^verbatim>\<open>os.WriteFile(path, data, 0644)\<close> where \<open>data\<close> is the JSON text of \<open>doc\<close>: the file is
  created or truncated, then written. After a failure while writing the file holds
  a proper prefix of a JSON text, which is no JSON text and has no line that starts
  with a letter; the empty file stands for it.
\<close>

definition osWriteFile :: "world \<Rightarrow> string \<Rightarrow> json \<Rightarrow> world \<times> error option" where
  "osWriteFile w path doc =
     (case fs w path of
        NotDir \<Rightarrow> (w, Some WriteError)
      | StatFails \<Rightarrow> (w, Some WriteError)
      | Directory \<Rightarrow> (w, Some WriteError)
      | NoAccess \<Rightarrow> (w, Some WriteError)
      | _ \<Rightarrow>
         (case diskFault w of
            OpenFault \<Rightarrow> (w, Some WriteError)
          | WriteFault \<Rightarrow> (w\<lparr>fs := (fs w)(path := Regular (NonJSON []))\<rparr>, Some WriteError)
          | NoFault \<Rightarrow> (w\<lparr>fs := (fs w)(path := Regular (JSONText doc))\<rparr>, None)))"

text \<open>\<^verbatim>\<open>os.UserHomeDir\<close> on Unix: \<^verbatim>\<open>$HOME\<close>, an error when it is empty or not set.\<close>

definition osUserHomeDir :: "world \<Rightarrow> error + string" where
  "osUserHomeDir w = (if envHOME w = [] then Inl HomeDirError else Inr (envHOME w))"

text \<open>\<^verbatim>\<open>filepath.Abs\<close>: a rooted path is cleaned, any other is joined to the working directory.\<close>

definition Abs :: "world \<Rightarrow> string \<Rightarrow> error + string" where
  "Abs w path =
     (if IsAbs path then Inr (Clean path)
      else (case cwd w of
              None \<Rightarrow> Inl GetwdError
            | Some wd \<Rightarrow> Inr (Join wd path)))"

subsection \<open>The registry in memory\<close>

text \<open>
  \<^verbatim>\<open>map[string]int\<close>: \<open>None\<close> is the nil map, \<open>Some m\<close> a map with the entries of
  \<open>m\<close>, an association list whose keys are distinct. Reading a nil map finds nothing,
  deleting from it does nothing, assigning to it panics.
\<close>

type_synonym gomap = "(string \<times> goint) list option"

record PortState =
  MaxSuffix :: goint
  Projects :: gomap

definition mapIndex :: "gomap \<Rightarrow> string \<Rightarrow> goint option" where
  "mapIndex m k = (case m of None \<Rightarrow> None | Some al \<Rightarrow> map_of al k)"

definition mapDelete :: "gomap \<Rightarrow> string \<Rightarrow> gomap" where
  "mapDelete m k = (case m of None \<Rightarrow> None | Some al \<Rightarrow> Some (AList.delete k al))"

text \<open>
  \<^verbatim>\<open>for path, s := range m\<close>. Go fixes no order for it; \<open>ks\<close> is the order in which
  this run visits the keys of the map.
\<close>

definition goRange :: "gomap \<Rightarrow> string list \<Rightarrow> (string \<times> goint) list" where
  "goRange m ks = List.map_filter (\<lambda>k. map_option (Pair k) (mapIndex m k)) ks"

subsection \<open>encoding/json on PortState\<close>

definition inInt64 :: "int \<Rightarrow> bool" where
  "inInt64 n = (- (2 ^ 63) \<le> n \<and> n < 2 ^ 63)"

text \<open>
  A JSON value into an \<^verbatim>\<open>int\<close> that holds \<open>old\<close>: \<^verbatim>\<open>null\<close> leaves it, an integer
  literal in range is stored, everything else is an UnmarshalTypeError.
\<close>

fun decodeInt :: "json \<Rightarrow> goint \<Rightarrow> error + goint" where
  "decodeInt (JInt n) old = (if inInt64 n then Inr (word_of_int n) else Inl UnmarshalError)"
| "decodeInt JNull old = Inr old"
| "decodeInt _ old = Inl UnmarshalError"

text \<open>
  The members of a JSON object into the map, in the order of the text: the key is
  coerced to valid UTF-8, the value starts from zero, a later member overwrites an
  earlier one with the same key.
\<close>

fun decodeEntries :: "(string \<times> json) list \<Rightarrow> (string \<times> goint) list
    \<Rightarrow> error + (string \<times> goint) list" where
  "decodeEntries [] m = Inr m"
| "decodeEntries ((k, v) # rest) m =
     (case decodeInt v 0 of
        Inl e \<Rightarrow> Inl e
      | Inr n \<Rightarrow> decodeEntries rest (AList.update (toValidUTF8 k) n m))"

text \<open>
  A key of the text names a field when it is the field's JSON name or equal to it
  under Unicode simple case folding. Two letters outside ASCII fold to an ASCII letter:
  U+017F (long s) to S and U+212A (Kelvin sign) to K. Every other letter outside
  ASCII folds to a letter outside ASCII and is left as it is here: it matches no
  letter of a field name either way.
\<close>

fun foldName :: "string \<Rightarrow> string" where
  "foldName [] = []"
| "foldName (c # cs) =
     (if 97 \<le> byte c \<and> byte c \<le> 122 then char_of (byte c - 32) # foldName cs
      else if byte c = 197 \<and> cs \<noteq> [] \<and> byte (hd cs) = 191 then CHR ''S'' # foldName (tl cs)
      else if byte c = 226 \<and> map byte (take 2 cs) = [132, 170] then CHR ''K'' # foldName (drop 2 cs)
      else c # foldName cs)"

definition fieldIs :: "string \<Rightarrow> string \<Rightarrow> bool" where
  "fieldIs name k =
     (let key = toValidUTF8 k in key = name \<or> foldName key = foldName name)"

fun decodeFields :: "(string \<times> json) list \<Rightarrow> PortState \<Rightarrow> error + PortState" where
  "decodeFields [] st = Inr st"
| "decodeFields ((k, v) # rest) st =
     (if fieldIs ''max_suffix'' k then
        (case decodeInt v (MaxSuffix st) of
           Inl e \<Rightarrow> Inl e
         | Inr n \<Rightarrow> decodeFields rest (st\<lparr>MaxSuffix := n\<rparr>))
      else if fieldIs ''projects'' k then
        (case v of
           JNull \<Rightarrow> decodeFields rest (st\<lparr>Projects := None\<rparr>)
         | JObject ms \<Rightarrow>
            (case decodeEntries ms (case Projects st of None \<Rightarrow> [] | Some m \<Rightarrow> m) of
               Inl e \<Rightarrow> Inl e
             | Inr m' \<Rightarrow> decodeFields rest (st\<lparr>Projects := Some m'\<rparr>))
         | _ \<Rightarrow> Inl UnmarshalError)
      else decodeFields rest st)"

text \<open>
  \<^verbatim>\<open>json.Unmarshal(data, state)\<close>: a syntax error for a file that is no JSON text;
  \<^verbatim>\<open>null\<close> leaves the state; an object is decoded member by member; any other value
  is an UnmarshalTypeError. (After a type error Go goes on decoding and reports the
  error at the end; the caller drops the state then, so the model stops at once.)
\<close>

fun Unmarshal :: "content \<Rightarrow> PortState \<Rightarrow> error + PortState" where
  "Unmarshal (NonJSON _) st = Inl UnmarshalError"
| "Unmarshal (JSONText JNull) st = Inr st"
| "Unmarshal (JSONText (JObject ms)) st = decodeFields ms st"
| "Unmarshal (JSONText _) st = Inl UnmarshalError"

text \<open>
  \<^verbatim>\<open>json.MarshalIndent(s, "", "  ")\<close>, which cannot fail on this type: the two fields
  in the order of the struct, the map's keys sorted and coerced to valid UTF-8, a nil
  map as \<^verbatim>\<open>null\<close>.
\<close>

definition encodeEntries :: "(string \<times> goint) list \<Rightarrow> (string \<times> json) list" where
  "encodeEntries m = map (\<lambda>(k, v). (toValidUTF8 k, JInt (sint v))) (sort_key fst m)"

definition MarshalIndent :: "PortState \<Rightarrow> json" where
  "MarshalIndent s =
     JObject [(''max_suffix'', JInt (sint (MaxSuffix s))),
              (''projects'', (case Projects s of
                                None \<Rightarrow> JNull
                              | Some m \<Rightarrow> JObject (encodeEntries m)))]"

subsection \<open>portmanager.go: the state file\<close>

definition getPortStatePath :: "world \<Rightarrow> error + string" where
  "getPortStatePath w =
     (if testStatePathOverride w \<noteq> [] then Inr (testStatePathOverride w)
      else (case osUserHomeDir w of
              Inl e \<Rightarrow> Inl e
            | Inr home \<Rightarrow> Inr (Join home ''.laravel-sail-ports.json'')))"

definition emptyState :: PortState where
  "emptyState = \<lparr>MaxSuffix = 0, Projects = Some []\<rparr>"

definition loadPortState :: "world \<Rightarrow> error + (PortState \<times> bool)" where
  "loadPortState w =
     (case getPortStatePath w of
        Inl e \<Rightarrow> Inl e
      | Inr path \<Rightarrow>
         (case osReadFile w path of
            ReadNotExist \<Rightarrow> Inr (emptyState, False)
          | ReadFails \<Rightarrow> Inl ReadError
          | ReadOK data \<Rightarrow>
             (case Unmarshal data emptyState of
                Inl e \<Rightarrow> Inl e
              | Inr state \<Rightarrow> Inr (state, True))))"

definition save :: "world \<Rightarrow> PortState \<Rightarrow> world \<times> error option" where
  "save w s =
     (case getPortStatePath w of
        Inl e \<Rightarrow> (w, Some e)
      | Inr path \<Rightarrow> osWriteFile w path (MarshalIndent s))"

subsection \<open>portmanager.go: recovery from the environment file\<close>

definition stripCR :: "string \<Rightarrow> string" where
  "stripCR line = (if line \<noteq> [] \<and> last line = CHR 0x0D then butlast line else line)"

text \<open>
  The loop of \<^verbatim>\<open>splitLines\<close>: \<open>cur\<close> is \<^verbatim>\<open>s[start:i]\<close>, the line read so far. A last
  line without a line feed counts when it is not empty.
\<close>

fun splitLinesFrom :: "string \<Rightarrow> string \<Rightarrow> string list" where
  "splitLinesFrom cur [] = (if cur \<noteq> [] then [stripCR cur] else [])"
| "splitLinesFrom cur (c # cs) =
     (if c = CHR 0x0A then stripCR cur # splitLinesFrom [] cs
      else splitLinesFrom (cur @ [c]) cs)"

definition splitLines :: "string \<Rightarrow> string list" where
  "splitLines s = splitLinesFrom [] s"

definition HasPrefix :: "string \<Rightarrow> string \<Rightarrow> bool" where
  "HasPrefix s pre = (take (length pre) s = pre)"

text \<open>
  The scanner of package fmt under \<^verbatim>\<open>Sscanf\<close>: leading white space is skipped, a line
  feed in it is an error.
\<close>

fun scanSkipSpace :: "string \<Rightarrow> string option" where
  "scanSkipSpace [] = Some []"
| "scanSkipSpace (c # cs) =
     (if c = CHR 0x0A then None
      else (case spaceLen (c # cs) of
              0 \<Rightarrow> Some (c # cs)
            | Suc n \<Rightarrow> scanSkipSpace (drop n cs)))"

definition isDigit :: "char \<Rightarrow> bool" where
  "isDigit c = (48 \<le> byte c \<and> byte c \<le> 57)"

definition digitsVal :: "string \<Rightarrow> nat" where
  "digitsVal ds = foldl (\<lambda>a c. 10 * a + (byte c - 48)) 0 ds"

text \<open>
  The verb \<^verbatim>\<open>%d\<close> into an \<^verbatim>\<open>int\<close>: white space, an optional sign, then the longest
  run of decimal digits, which \<^verbatim>\<open>strconv.ParseInt\<close> reads in base 10 (an error when
  the magnitude does not fit 64 bits). What follows the run stays unread.
\<close>

definition scanInt :: "string \<Rightarrow> goint option" where
  "scanInt s =
     (case scanSkipSpace s of
        None \<Rightarrow> None
      | Some s1 \<Rightarrow>
         (let neg = (s1 \<noteq> [] \<and> hd s1 = CHR ''-'');
              s2 = (if s1 \<noteq> [] \<and> (hd s1 = CHR ''+'' \<or> hd s1 = CHR ''-'') then tl s1 else s1);
              tok = takeWhile isDigit s2;
              n = int (digitsVal tok)
          in if tok = [] then None
             else if neg then (if n \<le> 2 ^ 63 then Some (word_of_int (- n)) else None)
             else (if n < 2 ^ 63 then Some (word_of_int n) else None)))"

text \<open>\<^verbatim>\<open>fmt.Sscanf(line, "APP_PORT=%d", &p)\<close>: \<open>Some p\<close> when it returns no error.\<close>

definition Sscanf :: "string \<Rightarrow> goint option" where
  "Sscanf line =
     (if HasPrefix line ''APP_PORT='' then scanInt (drop 9 line) else None)"

fun scanLines :: "string list \<Rightarrow> goint \<times> bool" where
  "scanLines [] = (0, False)"
| "scanLines (line # rest) =
     (let line' = TrimSpace line in
      if HasPrefix line' ''APP_PORT='' then
        (case Sscanf line' of
           Some p \<Rightarrow> if 8000 \<le> sint p then (p - 8000, True) else scanLines rest
         | None \<Rightarrow> scanLines rest)
      else scanLines rest)"

text \<open>
  A file that is a JSON text has no line that begins with \<^verbatim>\<open>APP_PORT=\<close>: outside its
  strings a JSON text holds punctuation, literals, numbers and white space only, and
  no string of it holds a line feed.
\<close>

definition extractSuffixFromEnv :: "world \<Rightarrow> string \<Rightarrow> goint \<times> bool" where
  "extractSuffixFromEnv w envPath =
     (case osReadFile w envPath of
        ReadOK (NonJSON data) \<Rightarrow> scanLines (splitLines data)
      | _ \<Rightarrow> (0, False))"

subsection \<open>The operations on the registry\<close>

definition getSuggestedSuffix :: "world \<Rightarrow> string \<Rightarrow> error + (goint \<times> bool \<times> bool)" where
  "getSuggestedSuffix w projectDir =
     (case loadPortState w of
        Inl e \<Rightarrow> Inl e
      | Inr (state, existed) \<Rightarrow>
         (case Abs w projectDir of
            Inl e \<Rightarrow> Inl e
          | Inr absDir \<Rightarrow>
             (case mapIndex (Projects state) absDir of
                Some suffix \<Rightarrow> Inr (suffix, True, existed)
              | None \<Rightarrow>
                 (let envPath = Join projectDir ''.env'' in
                  if osStat w envPath = StatOK then
                    (case extractSuffixFromEnv w envPath of
                       (suffix, True) \<Rightarrow> Inr (suffix, True, existed)
                     | (suffix, False) \<Rightarrow> Inr (MaxSuffix state + 1, False, existed))
                  else Inr (MaxSuffix state + 1, False, existed)))))"

definition saveProjectSuffix :: "world \<Rightarrow> string \<Rightarrow> goint \<Rightarrow> world \<times> error option" where
  "saveProjectSuffix w projectDir suffix =
     (case loadPortState w of
        Inl e \<Rightarrow> (w, Some e)
      | Inr (state, existed) \<Rightarrow>
         (case Abs w projectDir of
            Inl e \<Rightarrow> (w, Some e)
          | Inr absDir \<Rightarrow>
             (case Projects state of
                None \<Rightarrow> (w, Some PanicNilMap)
              | Some m \<Rightarrow>
                 (let state1 = state\<lparr>Projects := Some (AList.update absDir suffix m)\<rparr>;
                      state2 = (if sint (MaxSuffix state1) < sint suffix
                                then state1\<lparr>MaxSuffix := suffix\<rparr> else state1)
                  in save w state2))))"

fun findOther :: "(string \<times> goint) list \<Rightarrow> string \<Rightarrow> goint \<Rightarrow> string \<times> bool" where
  "findOther [] absDir suffix = ([], False)"
| "findOther ((path, s) # rest) absDir suffix =
     (if s = suffix \<and> path \<noteq> absDir then (path, True)
      else findOther rest absDir suffix)"

definition isSuffixInUseByOther :: "world \<Rightarrow> string list \<Rightarrow> string \<Rightarrow> goint \<Rightarrow> string \<times> bool" where
  "isSuffixInUseByOther w ks projectDir suffix =
     (case loadPortState w of
        Inl e \<Rightarrow> ([], False)
      | Inr (state, existed) \<Rightarrow>
         (case Abs w projectDir of
            Inl e \<Rightarrow> ([], False)
          | Inr absDir \<Rightarrow> findOther (goRange (Projects state) ks) absDir suffix))"

text \<open>
  The first loop of \<^verbatim>\<open>CleanOrphanedProjects\<close>: the paths \<^verbatim>\<open>os.Stat\<close> reports as not
  existing, in the order of the visit.
\<close>

definition orphans :: "world \<Rightarrow> gomap \<Rightarrow> string list \<Rightarrow> string list" where
  "orphans w m ks = filter (\<lambda>path. osStat w path = StatNotExist) (map fst (goRange m ks))"

text \<open>
  \<^verbatim>\<open>CleanOrphanedProjects\<close>; the line it prints for each removed project is left out.
\<close>

definition CleanOrphanedProjects :: "world \<Rightarrow> string list \<Rightarrow> world \<times> nat \<times> error option" where
  "CleanOrphanedProjects w ks =
     (case loadPortState w of
        Inl e \<Rightarrow> (w, 0, Some e)
      | Inr (state, existed) \<Rightarrow>
         (let removed = orphans w (Projects state) ks;
              state' = state\<lparr>Projects := foldl mapDelete (Projects state) removed\<rparr>
          in if 0 < length removed then
               (case save w state' of
                  (w', Some e) \<Rightarrow> (w', 0, Some e)
                | (w', None) \<Rightarrow> (w', length removed, None))
             else (w, length removed, None)))"

definition RemoveProject :: "world \<Rightarrow> string \<Rightarrow> world \<times> error option" where
  "RemoveProject w projectDir =
     (case loadPortState w of
        Inl e \<Rightarrow> (w, Some e)
      | Inr (state, existed) \<Rightarrow>
         (case Abs w projectDir of
            Inl e \<Rightarrow> (w, Some e)
          | Inr absDir \<Rightarrow>
             (case mapIndex (Projects state) absDir of
                None \<Rightarrow> (w, Some (NotRegistered absDir))
              | Some s \<Rightarrow> save w (state\<lparr>Projects := mapDelete (Projects state) absDir\<rparr>))))"

subsection \<open>Well-formed registries\<close>

text \<open>
  The keys of a Go map are distinct by construction; \<open>wfMap\<close> adds that every key
  is valid UTF-8, which holds for every registry read from the state file.
\<close>

definition wfMap :: "(string \<times> goint) list \<Rightarrow> bool" where
  "wfMap al = (distinct (map fst al) \<and> list_all validUTF8 (map fst al))"

definition wfState :: "PortState \<Rightarrow> bool" where
  "wfState st = (case Projects st of None \<Rightarrow> True | Some al \<Rightarrow> wfMap al)"

definition keysOf :: "gomap \<Rightarrow> string set" where
  "keysOf m = (case m of None \<Rightarrow> {} | Some al \<Rightarrow> fst ` set al)"

subsection \<open>Example worlds\<close>

text \<open>
  A developer's machine: home and working directory \<^verbatim>\<open>/home/dev\<close>, the directories
  \<^verbatim>\<open>/a\<close> and \<^verbatim>\<open>/b\<close>, and the regular files listed in \<open>files\<close>. A path that leads
  through one of the regular files is \<open>NotDir\<close>.
\<close>

definition fsOf :: "string list \<Rightarrow> (string \<times> content) list \<Rightarrow> string \<Rightarrow> node" where
  "fsOf dirs files path =
     (case map_of files path of
        Some c \<Rightarrow> Regular c
      | None \<Rightarrow>
         if path \<in> set dirs then Directory
         else if list_ex (\<lambda>f. HasPrefix path (f @ ''/'')) (map fst files) then NotDir
         else NotExist)"

definition devWorld :: "(string \<times> content) list \<Rightarrow> world" where
  "devWorld files =
     \<lparr>testStatePathOverride = [], envHOME = ''/home/dev'', cwd = Some ''/home/dev'',
      fs = fsOf [''/'', ''/home'', ''/home/dev'', ''/a'', ''/b''] files, diskFault = NoFault\<rparr>"

definition stateFileName :: string where
  "stateFileName = ''/home/dev/.laravel-sail-ports.json''"

definition registryAB :: json where
  "registryAB = JObject [(''max_suffix'', JInt 52),
     (''projects'', JObject [(''/a'', JInt 51), (''/b'', JInt 52)])]"

text \<open>
  A directory whose name is not UTF-8 (\<^verbatim>\<open>caf\<close> and the Latin-1 byte E9), a registry that
  holds it, and registries for the scenarios.
\<close>

definition latin1Dir :: string where
  "latin1Dir = ''/srv/caf'' @ [CHR 0xE9]"

definition registryOrphans :: json where
  "registryOrphans = JObject [(''max_suffix'', JInt 53),
     (''projects'', JObject [(''/a'', JInt 51), (''/gone1'', JInt 52), (''/gone2'', JInt 53)])]"

definition latin1Registry :: PortState where
  "latin1Registry = \<lparr>MaxSuffix = 48, Projects = Some [(latin1Dir, 48)]\<rparr>"

definition registryBA :: PortState where
  "registryBA = \<lparr>MaxSuffix = 52, Projects = Some [(''/b'', 52), (''/a'', 51)]\<rparr>"

text \<open>
  A project \<^verbatim>\<open>/a\<close> whose \<^verbatim>\<open>.env\<close> file holds \<open>text\<close>, on a machine without a state file.
\<close>

definition envWorld :: "string \<Rightarrow> world" where
  "envWorld text = devWorld [(''/a/.env'', NonJSON text)]"



subsection \<open>The recovery rule in the words of the specification\<close>

text \<open>
  "The recovered value must be parsed as a whole decimal integer immediately
  following the key and an equals sign": \<open>specValue\<close> is the value of a line that
  consists of \<^verbatim>\<open>APP_PORT=\<close> and decimal digits only. \<open>specRecover\<close> takes the first
  line, top to bottom, whose value is at least 8000, and subtracts 8000.
\<close>

definition specValue :: "string \<Rightarrow> nat option" where
  "specValue line =
     (if HasPrefix line ''APP_PORT='' \<and> drop 9 line \<noteq> [] \<and> list_all isDigit (drop 9 line)
      then Some (digitsVal (drop 9 line)) else None)"

fun specRecover :: "string list \<Rightarrow> goint \<times> bool" where
  "specRecover [] = (0, False)"
| "specRecover (line # rest) =
     (case specValue line of
        Some n \<Rightarrow> if 8000 \<le> n then (word_of_int (int n) - 8000, True) else specRecover rest
      | None \<Rightarrow> specRecover rest)"

subsection \<open>Absence on disk in the words of the specification\<close>


section \<open>Lemmas\<close>

subsection \<open>UTF-8 coercion\<close>

lemma runeLen_le: "runeLen (c # cs) = Suc n \<Longrightarrow> n \<le> length cs"
  by (auto simp: Let_def split: if_splits list.splits)

lemma runeLen_take: "runeLen (c # cs) = Suc n \<Longrightarrow> runeLen (c # take n cs @ ys) = Suc n"
  by (auto simp: Let_def split: if_splits list.splits)

lemma toValidUTF8_runeError: "toValidUTF8 (runeError @ ys) = runeError @ toValidUTF8 ys"
  by (simp add: runeError_def byte_def cont_def)

lemma toValidUTF8_idem: "toValidUTF8 (toValidUTF8 s) = toValidUTF8 s"
proof (induction s rule: toValidUTF8.induct)
  case 1
  then show ?case by simp
next
  case (2 c cs)
  show ?case
  proof (cases "runeLen (c # cs)")
    case 0
    with 2 show ?thesis by (simp add: toValidUTF8_runeError del: runeLen.simps)
  next
    case (Suc n)
    have le: "n \<le> length cs" using Suc by (rule runeLen_le)
    have rl: "runeLen (c # take n cs @ toValidUTF8 (drop n cs)) = Suc n"
      using Suc by (rule runeLen_take)
    have "toValidUTF8 (c # take n cs @ toValidUTF8 (drop n cs))
        = c # take n cs @ toValidUTF8 (toValidUTF8 (drop n cs))"
      using rl le by (simp del: runeLen.simps)
    with 2(2)[OF Suc] Suc show ?thesis by (simp del: runeLen.simps)
  qed
qed

lemma validUTF8_toValidUTF8: "validUTF8 (toValidUTF8 s)"
  by (simp add: validUTF8_def toValidUTF8_idem)

lemma fieldIs_max_suffix: "fieldIs ''max_suffix'' ''max_suffix''"
  by (simp add: fieldIs_def byte_def cont_def)

lemma fieldIs_projects: "fieldIs ''projects'' ''projects''"
  by (simp add: fieldIs_def byte_def cont_def)

lemma fieldIs_other1: "\<not> fieldIs ''max_suffix'' ''projects''"
  by code_simp

lemma fieldIs_other2: "\<not> fieldIs ''projects'' ''max_suffix''"
  by code_simp

subsection \<open>The JSON codec\<close>

lemma inInt64_sint: "inInt64 (sint (v :: goint))"
  using sint_ge[of v] sint_lt[of v] by (simp add: inInt64_def)

lemma update_fresh: "k \<notin> fst ` set al \<Longrightarrow> AList.update k v al = al @ [(k, v)]"
  by (induction al) auto

lemma decodeEntries_encoded:
  "decodeEntries (map (\<lambda>(k, v). (toValidUTF8 k, JInt (sint v))) xs) acc
     = Inr (fold (\<lambda>(k, v). AList.update (toValidUTF8 k) v) xs acc)"
  by (induction xs arbitrary: acc) (auto simp: inInt64_sint toValidUTF8_idem)

lemma fold_update_fresh:
  "distinct (map fst (acc @ xs)) \<Longrightarrow> list_all validUTF8 (map fst xs)
     \<Longrightarrow> fold (\<lambda>(k, v). AList.update (toValidUTF8 k) v) xs acc = acc @ xs"
proof (induction xs arbitrary: acc)
  case Nil
  then show ?case by simp
next
  case (Cons x xs)
  obtain k v where x: "x = (k, v)" by (cases x)
  have k: "toValidUTF8 k = k" using Cons.prems(2) x by (simp add: validUTF8_def)
  have fresh: "k \<notin> fst ` set acc" using Cons.prems(1) x by auto
  have "fold (\<lambda>(k, v). AList.update (toValidUTF8 k) v) xs (acc @ [(k, v)]) = (acc @ [(k, v)]) @ xs"
    using Cons.prems x by (intro Cons.IH) auto
  then show ?case using x k fresh by (simp add: update_fresh)
qed

lemma distinct_fst_sort_key: "distinct (map fst (sort_key fst m)) = distinct (map fst m)"
  by (simp add: distinct_map)

lemma map_of_sort_key: "distinct (map fst m) \<Longrightarrow> map_of (sort_key fst m) = map_of m"
  by (rule map_of_inject_set[THEN iffD2]) (simp_all add: distinct_fst_sort_key)

lemma Unmarshal_MarshalIndent:
  "Unmarshal (JSONText (MarshalIndent st)) emptyState
     = Inr \<lparr>MaxSuffix = MaxSuffix st,
            Projects = map_option
              (\<lambda>m. fold (\<lambda>(k, v). AList.update (toValidUTF8 k) v) (sort_key fst m) [])
              (Projects st)\<rparr>"
  by (cases "Projects st")
     (simp_all add: MarshalIndent_def fieldIs_max_suffix fieldIs_projects fieldIs_other1 fieldIs_other2
        emptyState_def inInt64_sint
        encodeEntries_def decodeEntries_encoded)

lemma Unmarshal_MarshalIndent_wf:
  assumes "wfState st"
  shows "Unmarshal (JSONText (MarshalIndent st)) emptyState
     = Inr \<lparr>MaxSuffix = MaxSuffix st, Projects = map_option (sort_key fst) (Projects st)\<rparr>"
proof (cases "Projects st")
  case None
  then show ?thesis by (simp add: Unmarshal_MarshalIndent)
next
  case (Some m)
  have d: "distinct (map fst ([] @ sort_key fst m))"
    using assms Some by (simp add: wfState_def wfMap_def distinct_fst_sort_key)
  have v: "list_all validUTF8 (map fst (sort_key fst m))"
    using assms Some by (simp add: wfState_def wfMap_def list_all_iff)
  show ?thesis using Some fold_update_fresh[OF d v] by (simp add: Unmarshal_MarshalIndent)
qed

lemma wfMap_update: "wfMap al \<Longrightarrow> validUTF8 k \<Longrightarrow> wfMap (AList.update k v al)"
  by (auto simp: wfMap_def AList.distinct_update list_all_iff AList.dom_update)

lemma wfMap_delete: "wfMap al \<Longrightarrow> wfMap (AList.delete k al)"
  by (auto simp: wfMap_def AList.delete_keys list_all_iff distinct_removeAll)

lemma decodeEntries_wf: "decodeEntries ms acc = Inr m \<Longrightarrow> wfMap acc \<Longrightarrow> wfMap m"
  by (induction ms acc rule: decodeEntries.induct)
     (auto split: sum.splits simp: wfMap_update validUTF8_toValidUTF8)

lemma decodeFields_wf: "decodeFields ms st = Inr st' \<Longrightarrow> wfState st \<Longrightarrow> wfState st'"
proof (induction ms arbitrary: st)
  case Nil
  then show ?case by simp
next
  case (Cons kv rest)
  obtain k v where kv: "kv = (k, v)" by (cases kv)
  consider (a) "fieldIs ''max_suffix'' k"
    | (b) "\<not> fieldIs ''max_suffix'' k" "fieldIs ''projects'' k"
    | (c) "\<not> fieldIs ''max_suffix'' k" "\<not> fieldIs ''projects'' k" by blast
  then show ?case
  proof cases
    case a
    with Cons.prems(1) kv obtain n where
      "decodeFields rest (st\<lparr>MaxSuffix := n\<rparr>) = Inr st'"
      by (auto split: sum.splits)
    moreover have "wfState (st\<lparr>MaxSuffix := n\<rparr>)"
      using Cons.prems(2) by (simp add: wfState_def)
    ultimately show ?thesis by (rule Cons.IH)
  next
    case b
    show ?thesis
    proof (cases v)
      case JNull
      with b Cons.prems(1) kv have "decodeFields rest (st\<lparr>Projects := None\<rparr>) = Inr st'"
        by simp
      moreover have "wfState (st\<lparr>Projects := None\<rparr>)" by (simp add: wfState_def)
      ultimately show ?thesis by (rule Cons.IH)
    next
      case (JObject ms')
      let ?base = "case Projects st of None \<Rightarrow> [] | Some m \<Rightarrow> m"
      from JObject b Cons.prems(1) kv obtain m' where
        de: "decodeEntries ms' ?base = Inr m'" and
        df: "decodeFields rest (st\<lparr>Projects := Some m'\<rparr>) = Inr st'"
        by (auto split: sum.splits)
      have "wfMap ?base"
        using Cons.prems(2) by (auto simp: wfState_def wfMap_def split: option.splits)
      with de have "wfMap m'" by (rule decodeEntries_wf)
      then have "wfState (st\<lparr>Projects := Some m'\<rparr>)" by (simp add: wfState_def)
      with df show ?thesis by (rule Cons.IH)
    qed (use b Cons.prems(1) kv in simp_all)
  next
    case c
    with Cons.prems(1) kv have "decodeFields rest st = Inr st'" by simp
    then show ?thesis using Cons.prems(2) by (rule Cons.IH)
  qed
qed

lemma Unmarshal_wf: "Unmarshal c st = Inr st' \<Longrightarrow> wfState st \<Longrightarrow> wfState st'"
  by (induction c st rule: Unmarshal.induct) (auto dest: decodeFields_wf)

lemma wfState_emptyState: "wfState emptyState"
  by (simp add: wfState_def wfMap_def emptyState_def)

lemma loadPortState_wf: "loadPortState w = Inr (st, ex) \<Longrightarrow> wfState st"
  by (auto simp: loadPortState_def wfState_emptyState
      split: sum.splits readResult.splits dest: Unmarshal_wf)

subsection \<open>Worlds and loops\<close>

lemmas path_defs = Join_def Clean_def cleanStep_def IsAbs_def Abs_def

lemmas os_defs = osStat_def osReadFile_def osWriteFile_def osUserHomeDir_def fsOf_def
  HasPrefix_def

lemmas world_defs = devWorld_def stateFileName_def getPortStatePath_def

lemmas json_defs = emptyState_def mapIndex_def fieldIs_max_suffix fieldIs_projects
  fieldIs_other1 fieldIs_other2 inInt64_def MarshalIndent_def
  encodeEntries_def byte_def cont_def

lemma devWorld_path: "getPortStatePath (devWorld files) = Inr stateFileName"
  by (simp add: world_defs os_defs path_defs)

lemma devWorld_load_empty: "loadPortState (devWorld []) = Inr (emptyState, False)"
  by (simp add: loadPortState_def devWorld_path) (simp add: devWorld_def stateFileName_def os_defs)

lemma devWorld_load_AB:
  "loadPortState (devWorld [(stateFileName, JSONText registryAB)])
     = Inr (\<lparr>MaxSuffix = 52, Projects = Some [(''/a'', 51), (''/b'', 52)]\<rparr>, True)"
  by (simp add: loadPortState_def devWorld_path)
     (simp add: devWorld_def stateFileName_def os_defs registryAB_def json_defs)

lemma mapIndex_goRange:
  "(k, v) \<in> set (goRange m ks) \<longleftrightarrow> k \<in> set ks \<and> mapIndex m k = Some v"
  by (induction ks) (auto simp: goRange_def split: option.splits)

lemma findOther_found:
  "snd (findOther xs a s) \<longleftrightarrow> (\<exists>k. k \<noteq> a \<and> (k, s) \<in> set xs)"
  by (induction xs a s rule: findOther.induct) auto

lemma findOther_path:
  "snd (findOther xs a s) \<Longrightarrow> fst (findOther xs a s) \<noteq> a \<and> (fst (findOther xs a s), s) \<in> set xs"
  by (induction xs a s rule: findOther.induct) auto

lemma findOther_none: "\<not> snd (findOther xs a s) \<Longrightarrow> findOther xs a s = ([], False)"
  by (induction xs a s rule: findOther.induct) (auto split: if_splits)

lemma mapIndex_keysOf: "mapIndex m k = Some v \<Longrightarrow> k \<in> keysOf m"
  by (auto simp: mapIndex_def keysOf_def split: option.splits dest: map_of_SomeD intro: rev_image_eqI)

subsection \<open>Saving and loading\<close>

lemma getPortStatePath_fs [simp]: "getPortStatePath (w\<lparr>fs := f\<rparr>) = getPortStatePath w"
  by (simp add: getPortStatePath_def osUserHomeDir_def)

lemma Abs_fs [simp]: "Abs (w\<lparr>fs := f\<rparr>) p = Abs w p"
  by (simp add: Abs_def)

lemma save_cases:
  assumes "save w s = (w', e)"
  shows "(w' = w \<and> e \<noteq> None)
       \<or> (\<exists>path. getPortStatePath w = Inr path
             \<and> w' = w\<lparr>fs := (fs w)(path := Regular (NonJSON []))\<rparr> \<and> e = Some WriteError)
       \<or> (\<exists>path. getPortStatePath w = Inr path
             \<and> w' = w\<lparr>fs := (fs w)(path := Regular (JSONText (MarshalIndent s)))\<rparr> \<and> e = None)"
  using assms
  by (auto simp: save_def osWriteFile_def split: sum.splits node.splits fault.splits)

lemma save_ok:
  assumes "save w s = (w', None)"
  shows "\<exists>path. getPortStatePath w = Inr path
             \<and> w' = w\<lparr>fs := (fs w)(path := Regular (JSONText (MarshalIndent s)))\<rparr>"
  using save_cases[OF assms] by auto

lemma load_written:
  assumes "getPortStatePath w = Inr path"
  shows "loadPortState (w\<lparr>fs := (fs w)(path := Regular c)\<rparr>)
     = (case Unmarshal c emptyState of Inl e \<Rightarrow> Inl e | Inr st \<Rightarrow> Inr (st, True))"
  using assms by (simp add: loadPortState_def osReadFile_def)

lemma load_after_save:
  assumes "save w s = (w', None)"
  shows "loadPortState w'
     = Inr (\<lparr>MaxSuffix = MaxSuffix s,
             Projects = map_option
               (\<lambda>m. fold (\<lambda>(k, v). AList.update (toValidUTF8 k) v) (sort_key fst m) [])
               (Projects s)\<rparr>, True)"
  using save_ok[OF assms] by (auto simp: load_written Unmarshal_MarshalIndent)

lemma load_after_save_wf:
  assumes "save w s = (w', None)" and "wfState s"
  shows "loadPortState w'
     = Inr (\<lparr>MaxSuffix = MaxSuffix s, Projects = map_option (sort_key fst) (Projects s)\<rparr>, True)"
  using save_ok[OF assms(1)] assms(2) by (auto simp: load_written Unmarshal_MarshalIndent_wf)

lemma mapIndex_sorted:
  "wfState s \<Longrightarrow> mapIndex (map_option (sort_key fst) (Projects s)) = mapIndex (Projects s)"
  by (cases "Projects s") (auto simp: mapIndex_def wfState_def wfMap_def map_of_sort_key)

lemma save_MaxSuffix:
  assumes "save w s = (w', e)" and "loadPortState w' = Inr (st', ex')"
  shows "w' = w \<or> MaxSuffix st' = MaxSuffix s"
proof -
  from save_cases[OF assms(1)] consider (same) "w' = w"
    | (trunc) path where "getPortStatePath w = Inr path"
        "w' = w\<lparr>fs := (fs w)(path := Regular (NonJSON []))\<rparr>"
    | (ok) "e = None" by blast
  then show ?thesis
  proof cases
    case same
    then show ?thesis by simp
  next
    case trunc
    then have "loadPortState w' = Inl UnmarshalError" by (simp add: load_written)
    with assms(2) show ?thesis by simp
  next
    case ok
    with assms(1) have "save w s = (w', None)" by simp
    from load_after_save[OF this] assms(2) show ?thesis by auto
  qed
qed

lemma mapIndex_mapDelete: "mapIndex (mapDelete m k) = (mapIndex m)(k := None)"
  by (cases m) (auto simp: mapIndex_def mapDelete_def AList.delete_conv')

lemma wfState_mapDelete: "wfState st \<Longrightarrow> wfState (st\<lparr>Projects := mapDelete (Projects st) k\<rparr>)"
  by (cases "Projects st") (auto simp: wfState_def mapDelete_def wfMap_delete)





lemma CleanOrphanedProjects_loaded:
  assumes "loadPortState w = Inr (st, ex)"
  shows "CleanOrphanedProjects w ks =
     (if orphans w (Projects st) ks = [] then (w, 0, None)
      else (case save w (st\<lparr>Projects := foldl mapDelete (Projects st) (orphans w (Projects st) ks)\<rparr>) of
              (w', Some e) \<Rightarrow> (w', 0, Some e)
            | (w', None) \<Rightarrow> (w', length (orphans w (Projects st) ks), None)))"
  using assms by (simp add: CleanOrphanedProjects_def Let_def)



lemmas eval_defs = saveProjectSuffix_def getSuggestedSuffix_def RemoveProject_def
  CleanOrphanedProjects_def isSuffixInUseByOther_def loadPortState_def save_def
  extractSuffixFromEnv_def orphans_def goRange_def mapDelete_def keysOf_def
  world_defs os_defs path_defs json_defs registryAB_def registryOrphans_def latin1Dir_def
  validUTF8_def wfState_def wfMap_def runeError_def

subsection \<open>Scanning the environment file\<close>

lemmas scan_defs = splitLines_def stripCR_def TrimSpace_def HasPrefix_def Sscanf_def scanInt_def
  isDigit_def digitsVal_def byte_def Let_def specValue_def

lemma scanLines_first:
  "scanLines ls = (case filter (\<lambda>l. snd (scanLines [l])) ls of [] \<Rightarrow> (0, False) | l # _ \<Rightarrow> scanLines [l])"
  by (induction ls) (auto simp: Let_def split: option.splits)

lemma spaceLen_digit: "isDigit c \<Longrightarrow> spaceLen (c # cs) = 0"
  by (auto simp: isDigit_def Let_def)

lemma digit_not_special: "isDigit c \<Longrightarrow> c \<noteq> CHR 0x0A \<and> c \<noteq> CHR ''+'' \<and> c \<noteq> CHR ''-'' \<and> c \<noteq> CHR ''_''"
  by (auto simp: isDigit_def byte_def)

lemma scanInt_digits:
  assumes ds: "ds \<noteq> []" "list_all isDigit ds"
    and rest: "rest = [] \<or> \<not> isDigit (hd rest)"
  shows "scanInt (ds @ rest)
     = (if int (digitsVal ds) < 2 ^ 63 then Some (word_of_nat (digitsVal ds)) else None)"
proof -
  obtain d ds' where d: "ds = d # ds'" using ds(1) by (cases ds) auto
  have dd: "isDigit d" using ds(2) d by simp
  have sk: "scanSkipSpace (ds @ rest) = Some (ds @ rest)"
    using d spaceLen_digit[OF dd] digit_not_special[OF dd] by (simp del: spaceLen.simps)
  have tw: "takeWhile isDigit (ds @ rest) = ds"
  proof -
    have "takeWhile isDigit (ds @ rest) = ds @ takeWhile isDigit rest"
      using ds(2) by (intro takeWhile_append2) (auto simp: list_all_iff)
    also have "takeWhile isDigit rest = []"
      using rest by (cases rest) auto
    finally show ?thesis by simp
  qed
  show ?thesis
    unfolding scanInt_def sk using d digit_not_special[OF dd] tw ds(1)
    by (simp add: Let_def)
qed

lemma sint_word_of_nat64: "int n < 2 ^ 63 \<Longrightarrow> sint (word_of_nat n :: goint) = int n"
  by (simp add: signed_of_nat signed_take_bit_int_eq_self)

text \<open>White space as \<^verbatim>\<open>%d\<close> skips it, and the lines \<^verbatim>\<open>%d\<close> reads a value of at least 8000 from.\<close>

lemma spaceLen_one: "spaceLen (c # cs) = Suc 0 \<longleftrightarrow> (9 \<le> byte c \<and> byte c \<le> 13) \<or> byte c = 32"
proof (cases cs)
  case Nil
  then show ?thesis by (simp add: Let_def)
next
  case (Cons c1 r)
  then show ?thesis by (cases r) (simp_all add: Let_def)
qed

lemma spaceLen_first: "(9 \<le> byte c \<and> byte c \<le> 13) \<or> byte c = 32 \<Longrightarrow> spaceLen (c # cs) = Suc 0"
  by (simp add: spaceLen_one)

lemma spaceLen_two:
  "spaceLen (c # cs) = Suc (Suc 0) \<longleftrightarrow>
     byte c = 194 \<and> (\<exists>c1 r. cs = c1 # r \<and> (byte c1 = 133 \<or> byte c1 = 160))"
proof (cases cs)
  case Nil
  then show ?thesis by (simp add: Let_def)
next
  case (Cons c1 r)
  then show ?thesis by (cases r) (simp_all add: Let_def)
qed

lemma spaceLen_three:
  "spaceLen (c # cs) = Suc (Suc (Suc 0)) \<longleftrightarrow> (\<exists>c1 c2 r. cs = c1 # c2 # r \<and> spaceLen [c, c1, c2] = 3)"
proof (cases cs)
  case Nil
  then show ?thesis by (simp add: Let_def)
next
  case (Cons c1 r)
  then show ?thesis by (cases r) (simp_all add: Let_def)
qed

lemma spaceLen_range: "spaceLen (c # cs) \<le> 3"
proof (cases cs)
  case Nil
  then show ?thesis by (simp add: Let_def)
next
  case (Cons c1 r)
  then show ?thesis by (cases r) (simp_all add: Let_def)
qed


lemma spaceLen_shape:
  assumes "spaceLen (c # cs) = Suc n"
  shows "(n = 0 \<and> ((9 \<le> byte c \<and> byte c \<le> 13) \<or> byte c = 32))
       \<or> (n = 1 \<and> byte c = 194 \<and> (\<exists>c1 r. cs = c1 # r \<and> (byte c1 = 133 \<or> byte c1 = 160)))
       \<or> (n = 2 \<and> (\<exists>c1 c2 r. cs = c1 # c2 # r \<and> spaceLen [c, c1, c2] = 3))"
proof -
  have "Suc n \<le> 3" using spaceLen_range[of c cs] assms by (simp del: spaceLen.simps)
  then consider "n = 0" | "n = 1" | "n = 2" by linarith
  then show ?thesis
  proof cases
    case 1
    with assms spaceLen_one[of c cs] show ?thesis by (simp del: spaceLen.simps)
  next
    case 2
    with assms spaceLen_two[of c cs] show ?thesis by (simp del: spaceLen.simps)
  next
    case 3
    with assms spaceLen_three[of c cs] show ?thesis
      by (simp del: spaceLen.simps add: numeral_2_eq_2)
  qed
qed

lemma spaceLen_le: "spaceLen (c # cs) = Suc n \<Longrightarrow> n \<le> length cs"
  by (drule spaceLen_shape) auto

lemma spaceLen_append:
  assumes "spaceLen (c # cs) = Suc n"
  shows "spaceLen (c # cs @ ys) = Suc n"
proof -
  from spaceLen_shape[OF assms] consider
      (a) "n = 0" "(9 \<le> byte c \<and> byte c \<le> 13) \<or> byte c = 32"
    | (b) c1 r where "n = 1" "byte c = 194" "cs = c1 # r" "byte c1 = 133 \<or> byte c1 = 160"
    | (c) c1 c2 r where "n = 2" "cs = c1 # c2 # r" "spaceLen [c, c1, c2] = 3" by blast
  then show ?thesis
  proof cases
    case a
    then show ?thesis using spaceLen_one[of c "cs @ ys"] by (simp del: spaceLen.simps)
  next
    case b
    then show ?thesis using spaceLen_two[of c "cs @ ys"] by (simp del: spaceLen.simps)
  next
    case c
    then show ?thesis using spaceLen_three[of c "cs @ ys"]
      by (simp del: spaceLen.simps add: numeral_2_eq_2)
  qed
qed

lemma spaceLen_take:
  assumes "spaceLen (c # cs) = Suc n"
  shows "spaceLen (c # take n cs @ ys) = Suc n"
proof -
  from spaceLen_shape[OF assms] consider
      (a) "n = 0" "(9 \<le> byte c \<and> byte c \<le> 13) \<or> byte c = 32"
    | (b) c1 r where "n = 1" "byte c = 194" "cs = c1 # r" "byte c1 = 133 \<or> byte c1 = 160"
    | (c) c1 c2 r where "n = 2" "cs = c1 # c2 # r" "spaceLen [c, c1, c2] = 3" by blast
  then show ?thesis
  proof cases
    case a
    then show ?thesis using spaceLen_one[of c "take n cs @ ys"] by (simp del: spaceLen.simps)
  next
    case b
    then show ?thesis using spaceLen_two[of c "take n cs @ ys"] by (simp del: spaceLen.simps)
  next
    case c
    then show ?thesis using spaceLen_three[of c "take n cs @ ys"]
      by (simp del: spaceLen.simps add: numeral_2_eq_2)
  qed
qed

lemma scanSkipSpace_append:
  assumes "scanSkipSpace sp = Some []"
    and "x = [] \<or> (hd x \<noteq> CHR 0x0A \<and> spaceLen x = 0)"
  shows "scanSkipSpace (sp @ x) = Some x"
  using assms
proof (induction sp rule: scanSkipSpace.induct)
  case 1
  then show ?case by (cases x) (auto simp del: spaceLen.simps)
next
  case (2 c cs)
  from "2.prems"(1) have nl: "c \<noteq> CHR 0x0A" by (auto split: if_splits)
  from "2.prems"(1) nl obtain n where n: "spaceLen (c # cs) = Suc n"
    and rec: "scanSkipSpace (drop n cs) = Some []"
    by (cases "spaceLen (c # cs)") (auto simp del: spaceLen.simps)
  have le: "n \<le> length cs" using n by (rule spaceLen_le)
  have "scanSkipSpace (drop n cs @ x) = Some x"
    using "2.IH"[OF nl n rec "2.prems"(2)] .
  then show ?case
    using nl spaceLen_append[OF n, of x] le by (simp del: spaceLen.simps)
qed

lemma scanSkipSpace_split:
  assumes "scanSkipSpace r = Some s1"
  shows "\<exists>sp. r = sp @ s1 \<and> scanSkipSpace sp = Some []
            \<and> (s1 = [] \<or> (hd s1 \<noteq> CHR 0x0A \<and> spaceLen s1 = 0))"
  using assms
proof (induction r rule: scanSkipSpace.induct)
  case 1
  then show ?case by simp
next
  case (2 c cs)
  from "2.prems" have nl: "c \<noteq> CHR 0x0A" by (auto split: if_splits)
  show ?case
  proof (cases "spaceLen (c # cs)")
    case 0
    with "2.prems" nl have "s1 = c # cs" by (simp del: spaceLen.simps)
    with 0 nl show ?thesis by (intro exI[of _ "[]"]) (simp del: spaceLen.simps)
  next
    case (Suc n)
    with "2.prems" nl have rec: "scanSkipSpace (drop n cs) = Some s1"
      by (simp del: spaceLen.simps)
    from "2.IH"[OF nl Suc rec] obtain sp where
      sp: "drop n cs = sp @ s1" "scanSkipSpace sp = Some []"
        "s1 = [] \<or> (hd s1 \<noteq> CHR 0x0A \<and> spaceLen s1 = 0)" by blast
    have le: "n \<le> length cs" using Suc by (rule spaceLen_le)
    have "scanSkipSpace (c # take n cs @ sp) = Some []"
      using nl spaceLen_take[OF Suc, of sp] le sp(2) by (simp del: spaceLen.simps)
    moreover have "c # cs = (c # take n cs @ sp) @ s1"
      using sp(1)[symmetric] by simp
    ultimately show ?thesis using sp(3) by blast
  qed
qed

lemma spaceLen_plus: "spaceLen (CHR ''+'' # cs) = 0"
  by (simp add: byte_def)

lemma sint_neg_nat64: "int m \<le> 2 ^ 63 \<Longrightarrow> sint (word_of_int (- int m) :: goint) \<le> 0"
proof -
  assume a: "int m \<le> 2 ^ 63"
  have "sint (word_of_int (- int m) :: goint) = signed_take_bit 63 (- int m)"
    by (simp only: signed_of_int) simp
  also have "\<dots> = - int m"
    using a by (intro signed_take_bit_int_eq_self) simp_all
  finally show ?thesis by simp
qed

lemma scanInt_recoverable:
  "(scanInt r = Some p \<and> 8000 \<le> sint p) \<longleftrightarrow>
     (\<exists>sp sg ds rest. r = sp @ sg @ ds @ rest \<and> scanSkipSpace sp = Some []
        \<and> (sg = [] \<or> sg = ''+'') \<and> ds \<noteq> [] \<and> list_all isDigit ds
        \<and> (rest = [] \<or> \<not> isDigit (hd rest))
        \<and> 8000 \<le> digitsVal ds \<and> int (digitsVal ds) < 2 ^ 63
        \<and> p = word_of_nat (digitsVal ds))"
  (is "?L \<longleftrightarrow> ?R")
proof
  assume ?R
  then obtain sp sg ds rest where
    r: "r = sp @ sg @ ds @ rest" and sp: "scanSkipSpace sp = Some []"
    and sg: "sg = [] \<or> sg = ''+''" and ds: "ds \<noteq> []" "list_all isDigit ds"
    and rest: "rest = [] \<or> \<not> isDigit (hd rest)"
    and v: "8000 \<le> digitsVal ds" "int (digitsVal ds) < 2 ^ 63"
    and p: "p = word_of_nat (digitsVal ds)" by blast
  obtain d ds' where d: "ds = d # ds'" using ds(1) by (cases ds) auto
  have dd: "isDigit d" using ds(2) d by simp
  note dn = digit_not_special[OF dd]
  let ?x = "sg @ ds @ rest"
  have x0: "?x \<noteq> [] \<and> hd ?x \<noteq> CHR 0x0A \<and> spaceLen ?x = 0 \<and> hd ?x \<noteq> CHR ''-''"
    using sg d dn spaceLen_digit[OF dd] spaceLen_plus by (auto simp del: spaceLen.simps)
  have sk: "scanSkipSpace r = Some ?x"
    unfolding r using sp x0 by (intro scanSkipSpace_append) auto
  have s2: "(if ?x \<noteq> [] \<and> (hd ?x = CHR ''+'' \<or> hd ?x = CHR ''-'') then tl ?x else ?x) = ds @ rest"
    using sg d dn by auto
  have tw: "takeWhile isDigit (ds @ rest) = ds"
  proof -
    have "takeWhile isDigit (ds @ rest) = ds @ takeWhile isDigit rest"
      using ds(2) by (intro takeWhile_append2) (auto simp: list_all_iff)
    also have "takeWhile isDigit rest = []" using rest by (cases rest) auto
    finally show ?thesis by simp
  qed
  have "scanInt r = Some p"
    unfolding scanInt_def sk using x0 s2 tw ds(1) v(2) p by (simp add: Let_def)
  moreover have "8000 \<le> sint p"
    unfolding p using sint_word_of_nat64[OF v(2)] v(1) by simp
  ultimately show ?L by simp
next
  assume L: ?L
  then obtain s1 where sk: "scanSkipSpace r = Some s1"
    by (cases "scanSkipSpace r") (auto simp: scanInt_def)
  define s2 where "s2 = (if s1 \<noteq> [] \<and> (hd s1 = CHR ''+'' \<or> hd s1 = CHR ''-'') then tl s1 else s1)"
  define tok where "tok = takeWhile isDigit s2"
  have si: "scanInt r = (if tok = [] then None
       else if s1 \<noteq> [] \<and> hd s1 = CHR ''-''
            then (if int (digitsVal tok) \<le> 2 ^ 63 then Some (word_of_int (- int (digitsVal tok))) else None)
            else (if int (digitsVal tok) < 2 ^ 63 then Some (word_of_int (int (digitsVal tok))) else None))"
    unfolding scanInt_def sk tok_def s2_def by (simp add: Let_def)
  have tok: "tok \<noteq> []" using L si by (auto split: if_splits)
  have notneg: "\<not> (s1 \<noteq> [] \<and> hd s1 = CHR ''-'')"
  proof
    assume neg: "s1 \<noteq> [] \<and> hd s1 = CHR ''-''"
    with L si tok have le: "int (digitsVal tok) \<le> 2 ^ 63"
      and p: "p = word_of_int (- int (digitsVal tok))"
      by (auto split: if_splits)
    from sint_neg_nat64[OF le] p L show False by simp
  qed
  with L si tok have lt: "int (digitsVal tok) < 2 ^ 63" and p: "p = word_of_nat (digitsVal tok)"
    by (auto split: if_splits)
  have ge: "8000 \<le> digitsVal tok"
    using L sint_word_of_nat64[OF lt] p by simp
  from scanSkipSpace_split[OF sk] obtain sp where
    sp: "r = sp @ s1" "scanSkipSpace sp = Some []" by blast
  define sg where "sg = (if s1 \<noteq> [] \<and> hd s1 = CHR ''+'' then ''+'' else [])"
  have s1: "s1 = sg @ s2"
    using notneg by (cases s1) (auto simp: sg_def s2_def)
  define rest where "rest = dropWhile isDigit s2"
  have s2: "s2 = tok @ rest" by (simp add: tok_def rest_def)
  have rest: "rest = [] \<or> \<not> isDigit (hd rest)"
    unfolding rest_def using hd_dropWhile[of isDigit s2] by blast
  have digs: "list_all isDigit tok"
    unfolding tok_def list_all_iff using set_takeWhileD by fastforce
  have "r = sp @ sg @ tok @ rest" using sp(1) s1 s2 by simp
  moreover have "sg = [] \<or> sg = ''+''" by (simp add: sg_def)
  ultimately show ?R using sp(2) tok digs rest ge lt p by blast
qed

subsection \<open>Registries whose keys are valid UTF-8\<close>

text \<open>
  After a successful \<^verbatim>\<open>saveProjectSuffix(p, s)\<close> the state file loads again with
  \<open>MaxSuffix \<ge> s\<close>; and when the absolute path of \<open>p\<close> is valid UTF-8, the next
  suggestion for \<open>p\<close> is \<open>s\<close> with isExistingAssignment and registryExisted true.
\<close>

lemma saveProjectSuffix_then_suggest_utf8:
  assumes "saveProjectSuffix w p s = (w', None)"
  shows "(\<exists>st'. loadPortState w' = Inr (st', True) \<and> sint s \<le> sint (MaxSuffix st'))
       \<and> (\<forall>absDir. Abs w p = Inr absDir \<and> validUTF8 absDir
             \<longrightarrow> getSuggestedSuffix w' p = Inr (s, True, True))"
proof -
  from assms obtain st ex a m where
    load: "loadPortState w = Inr (st, ex)" and abs: "Abs w p = Inr a"
    and m: "Projects st = Some m"
    and sv: "save w (if sint (MaxSuffix st) < sint s
                     then st\<lparr>Projects := Some (AList.update a s m), MaxSuffix := s\<rparr>
                     else st\<lparr>Projects := Some (AList.update a s m)\<rparr>) = (w', None)"
    by (auto simp: saveProjectSuffix_def Let_def split: sum.splits option.splits prod.splits if_splits)
  let ?st2 = "if sint (MaxSuffix st) < sint s
                     then st\<lparr>Projects := Some (AList.update a s m), MaxSuffix := s\<rparr>
                     else st\<lparr>Projects := Some (AList.update a s m)\<rparr>"
  have hw: "sint s \<le> sint (MaxSuffix ?st2)" by simp
  have p2: "Projects ?st2 = Some (AList.update a s m)" by simp
  have 1: "\<exists>st'. loadPortState w' = Inr (st', True) \<and> sint s \<le> sint (MaxSuffix st')"
    using load_after_save[OF sv] hw by simp
  have 2: "getSuggestedSuffix w' p = Inr (s, True, True)" if v: "validUTF8 a"
  proof -
    have "wfState st" using load by (rule loadPortState_wf)
    then have "wfMap m" using m by (simp add: wfState_def)
    then have "wfMap (AList.update a s m)" using v by (rule wfMap_update)
    then have wf2: "wfState ?st2" by (simp add: wfState_def)
    have l': "loadPortState w'
       = Inr (\<lparr>MaxSuffix = MaxSuffix ?st2, Projects = map_option (sort_key fst) (Projects ?st2)\<rparr>, True)"
      using sv wf2 by (rule load_after_save_wf)
    have "mapIndex (map_option (sort_key fst) (Projects ?st2)) a = mapIndex (Projects ?st2) a"
      using mapIndex_sorted[OF wf2] by simp
    also have "\<dots> = Some s" unfolding p2 by (simp add: mapIndex_def AList.update_conv')
    finally have mi: "mapIndex (map_option (sort_key fst) (Projects ?st2)) a = Some s" .
    from save_ok[OF sv] have abs': "Abs w' p = Inr a" using abs by auto
    show ?thesis unfolding getSuggestedSuffix_def l' using abs' mi by simp
  qed
  show ?thesis using 1 2 abs by auto
qed

text \<open>
  After \<^verbatim>\<open>saveProjectSuffix("/a", 48)\<close> on a fresh machine the suggestion for \<^verbatim>\<open>/a\<close> is
  \<open>(48, true, true)\<close> and for \<^verbatim>\<open>/b\<close> it is \<open>(49, false, true)\<close>.
\<close>

lemma saveProjectSuffix_then_suggest_scenario:
  "saveProjectSuffix (devWorld []) ''/a'' 48 = (fst (saveProjectSuffix (devWorld []) ''/a'' 48), None)
   \<and> Abs (devWorld []) ''/a'' = Inr ''/a'' \<and> validUTF8 ''/a''
   \<and> loadPortState (fst (saveProjectSuffix (devWorld []) ''/a'' 48))
        = Inr (\<lparr>MaxSuffix = 48, Projects = Some [(''/a'', 48)]\<rparr>, True)
   \<and> getSuggestedSuffix (fst (saveProjectSuffix (devWorld []) ''/a'' 48)) ''/a'' = Inr (48, True, True)
   \<and> getSuggestedSuffix (fst (saveProjectSuffix (devWorld []) ''/a'' 48)) ''/b'' = Inr (49, False, True)"
proof -
  let ?w' = "fst (saveProjectSuffix (devWorld []) ''/a'' 48)"
  have sv: "saveProjectSuffix (devWorld []) ''/a'' 48 = (?w', None)" by (simp add: eval_defs)
  have a: "Abs (devWorld []) ''/a'' = Inr ''/a''" by (simp add: eval_defs)
  have v: "validUTF8 ''/a''" by (simp add: eval_defs)
  have l: "loadPortState ?w' = Inr (\<lparr>MaxSuffix = 48, Projects = Some [(''/a'', 48)]\<rparr>, True)"
    by (simp add: eval_defs)
  have b: "getSuggestedSuffix ?w' ''/b'' = Inr (49, False, True)" by (simp add: eval_defs)
  from saveProjectSuffix_then_suggest_utf8[OF sv] a v have "getSuggestedSuffix ?w' ''/a'' = Inr (48, True, True)" by simp
  with sv a v l b show ?thesis by simp
qed

text \<open>
  For a registry whose keys are valid UTF-8, a successful \<^verbatim>\<open>save\<close> followed by
  \<^verbatim>\<open>loadPortState\<close> gives a registry with the same \<open>MaxSuffix\<close> and the same
  assignments (and a nil map stays nil), with existed true.
\<close>

lemma save_load_roundtrip_utf8:
  assumes "save w r = (w', None)" and "wfState r"
  shows "\<exists>r'. loadPortState w' = Inr (r', True)
            \<and> MaxSuffix r' = MaxSuffix r
            \<and> mapIndex (Projects r') = mapIndex (Projects r)
            \<and> (Projects r' = None \<longleftrightarrow> Projects r = None)"
  using load_after_save_wf[OF assms] mapIndex_sorted[OF assms(2)] by simp

lemma save_load_roundtrip_scenario:
  "wfState registryBA
   \<and> save (devWorld []) registryBA = (fst (save (devWorld []) registryBA), None)
   \<and> loadPortState (fst (save (devWorld []) registryBA))
        = Inr (\<lparr>MaxSuffix = 52, Projects = Some [(''/a'', 51), (''/b'', 52)]\<rparr>, True)
   \<and> mapIndex (Some [(''/a'', 51), (''/b'', 52)]) = mapIndex (Projects registryBA)"
proof -
  have wf: "wfState registryBA" by (simp add: registryBA_def eval_defs)
  have sv: "save (devWorld []) registryBA = (fst (save (devWorld []) registryBA), None)"
    by (simp add: registryBA_def eval_defs)
  have l: "loadPortState (fst (save (devWorld []) registryBA))
        = Inr (\<lparr>MaxSuffix = 52, Projects = Some [(''/a'', 51), (''/b'', 52)]\<rparr>, True)"
    by (simp add: registryBA_def eval_defs)
  from save_load_roundtrip_utf8[OF sv wf] l have "mapIndex (Some [(''/a'', 51), (''/b'', 52)]) = mapIndex (Projects registryBA)"
    by simp
  with wf sv l show ?thesis by simp
qed

section \<open>The claims\<close>

text \<open>
  C1. With the registry loaded and the directory resolved, the suggestion follows the
  priority order: the suffix registered under the absolute path, with
  isExistingAssignment true; else the suffix recovered from the \<^verbatim>\<open>.env\<close> file of the
  directory (the file exists and the scan finds a value), with isExistingAssignment
  true; else \<open>MaxSuffix + 1\<close> (Go's addition) with isExistingAssignment false. The
  third component is whether the state file existed.
\<close>

theorem getSuggestedSuffix_priority:
  assumes load: "loadPortState w = Inr (st, existed)"
    and abs: "Abs w p = Inr absDir"
  shows "(mapIndex (Projects st) absDir = Some suffix
            \<longrightarrow> getSuggestedSuffix w p = Inr (suffix, True, existed))
       \<and> (mapIndex (Projects st) absDir = None
            \<and> osStat w (Join p ''.env'') = StatOK
            \<and> extractSuffixFromEnv w (Join p ''.env'') = (suffix, True)
            \<longrightarrow> getSuggestedSuffix w p = Inr (suffix, True, existed))
       \<and> (mapIndex (Projects st) absDir = None
            \<and> \<not> (osStat w (Join p ''.env'') = StatOK
                  \<and> snd (extractSuffixFromEnv w (Join p ''.env'')))
            \<longrightarrow> getSuggestedSuffix w p = Inr (MaxSuffix st + 1, False, existed))"
  using load abs
  by (cases "extractSuffixFromEnv w (Join p ''.env'')")
     (auto simp: getSuggestedSuffix_def Let_def split: bool.splits)

text \<open>
  The three branches: the scenario of the specification (no state file, no \<^verbatim>\<open>.env\<close>;
  the suggestion for \<^verbatim>\<open>/a\<close> is \<open>(1, false, false)\<close>), a suffix recovered from
  \<^verbatim>\<open>.env\<close>, and a registered directory.
\<close>

theorem getSuggestedSuffix_priority_witness:
  "loadPortState (devWorld []) = Inr (emptyState, False)
   \<and> Abs (devWorld []) ''/a'' = Inr ''/a''
   \<and> mapIndex (Projects emptyState) ''/a'' = None
   \<and> osStat (devWorld []) (Join ''/a'' ''.env'') = StatNotExist
   \<and> getSuggestedSuffix (devWorld []) ''/a'' = Inr (1, False, False)
   \<and> loadPortState (envWorld ''APP_PORT=8051'') = Inr (emptyState, False)
   \<and> osStat (envWorld ''APP_PORT=8051'') (Join ''/a'' ''.env'') = StatOK
   \<and> extractSuffixFromEnv (envWorld ''APP_PORT=8051'') (Join ''/a'' ''.env'') = (51, True)
   \<and> getSuggestedSuffix (envWorld ''APP_PORT=8051'') ''/a'' = Inr (51, True, False)
   \<and> loadPortState (devWorld [(stateFileName, JSONText registryAB)])
        = Inr (\<lparr>MaxSuffix = 52, Projects = Some [(''/a'', 51), (''/b'', 52)]\<rparr>, True)
   \<and> getSuggestedSuffix (devWorld [(stateFileName, JSONText registryAB)]) ''/a''
        = Inr (51, True, True)"
proof -
  let ?e = "envWorld ''APP_PORT=8051''"
  let ?r = "devWorld [(stateFileName, JSONText registryAB)]"
  have l: "loadPortState (devWorld []) = Inr (emptyState, False)" by (rule devWorld_load_empty)
  have a: "Abs (devWorld []) ''/a'' = Inr ''/a''" by (simp add: path_defs)
  have m: "mapIndex (Projects emptyState) ''/a'' = None" by (simp add: emptyState_def mapIndex_def)
  have e: "osStat (devWorld []) (Join ''/a'' ''.env'') = StatNotExist"
    by (simp add: path_defs devWorld_def os_defs)
  from getSuggestedSuffix_priority[OF l a, of 0] m e
  have 3: "getSuggestedSuffix (devWorld []) ''/a'' = Inr (1, False, False)"
    by (simp add: emptyState_def)
  have le: "loadPortState ?e = Inr (emptyState, False)"
    by (simp add: envWorld_def loadPortState_def devWorld_path)
       (simp add: devWorld_def stateFileName_def os_defs)
  have ae: "Abs ?e ''/a'' = Inr ''/a''" by (simp add: path_defs)
  have se: "osStat ?e (Join ''/a'' ''.env'') = StatOK"
    by (simp add: envWorld_def path_defs devWorld_def os_defs)
  have xe: "extractSuffixFromEnv ?e (Join ''/a'' ''.env'') = (51, True)"
    by (simp add: extractSuffixFromEnv_def envWorld_def path_defs devWorld_def os_defs scan_defs)
  from getSuggestedSuffix_priority[OF le ae, of 51] m se xe
  have 2: "getSuggestedSuffix ?e ''/a'' = Inr (51, True, False)" by simp
  have lr: "loadPortState ?r
        = Inr (\<lparr>MaxSuffix = 52, Projects = Some [(''/a'', 51), (''/b'', 52)]\<rparr>, True)"
    by (rule devWorld_load_AB)
  have ar: "Abs ?r ''/a'' = Inr ''/a''" by (simp add: path_defs)
  from getSuggestedSuffix_priority[OF lr ar, of 51]
  have 1: "getSuggestedSuffix ?r ''/a'' = Inr (51, True, True)" by (simp add: mapIndex_def)
  show ?thesis using l a m e 3 le se xe 2 lr 1 by simp
qed

text \<open>
  C2. After a successful \<^verbatim>\<open>saveProjectSuffix(p, s)\<close> the registry on disk has
  \<open>MaxSuffix \<ge> s\<close>, and the next suggestion for \<open>p\<close> is to be \<open>s\<close> with
  isExistingAssignment true. The code stores the suffix under the absolute path of \<open>p\<close>
  and looks it up under the same path, but \<^verbatim>\<open>encoding/json\<close> writes the key coerced to
  valid UTF-8. For the directory \<^verbatim>\<open>/srv/caf\<close> followed by the Latin-1 byte E9 the save
  succeeds and the key on disk is \<^verbatim>\<open>/srv/caf\<close> followed by U+FFFD: the directory is not
  found again, the next suggestion for it is a new suffix, 49, with
  isExistingAssignment false, and the collision check takes the directory's own
  entry for another project that holds 48.
\<close>

theorem saveProjectSuffix_non_utf8_dir_not_found:
  "saveProjectSuffix (devWorld []) latin1Dir 48
     = (fst (saveProjectSuffix (devWorld []) latin1Dir 48), None)
   \<and> Abs (devWorld []) latin1Dir = Inr latin1Dir
   \<and> loadPortState (fst (saveProjectSuffix (devWorld []) latin1Dir 48))
        = Inr (\<lparr>MaxSuffix = 48, Projects = Some [(''/srv/caf'' @ runeError, 48)]\<rparr>, True)
   \<and> getSuggestedSuffix (fst (saveProjectSuffix (devWorld []) latin1Dir 48)) latin1Dir
        = Inr (49, False, True)
   \<and> isSuffixInUseByOther (fst (saveProjectSuffix (devWorld []) latin1Dir 48))
        [''/srv/caf'' @ runeError] latin1Dir 48 = (''/srv/caf'' @ runeError, True)"
  by (simp add: eval_defs)

text \<open>
  C3. \<^verbatim>\<open>ValidateSuffix\<close> succeeds exactly on \<open>0 \<dots> 47435\<close>; every failure is one of the
  two range errors; 47435 passes, 47436 and -1 fail.
\<close>

theorem ValidateSuffix_range:
  "(ValidateSuffix s = None) = (0 \<le> sint s \<and> sint s \<le> 47435)
   \<and> (case ValidateSuffix s of None \<Rightarrow> True | Some e \<Rightarrow> isRangeError e)
   \<and> ValidateSuffix 47435 = None
   \<and> ValidateSuffix 47436 = Some (SuffixTooLarge 47436)
   \<and> ValidateSuffix (- 1) = Some (SuffixNegative (- 1))"
  by (auto simp: ValidateSuffix_def MaxPortSuffix_def)

text \<open>
  C4, as amended. A file that cannot be read recovers nothing; otherwise the scan
  takes the first line, top to bottom, that is recoverable on its own. A line is
  recoverable exactly when, after its surrounding white space is trimmed, it consists
  of \<^verbatim>\<open>APP_PORT=\<close>, white space without a line feed (\<open>sp\<close>, possibly empty), an optional
  plus sign (\<open>sg\<close>), a run of decimal digits (\<open>ds\<close>) whose value is at least 8000 and
  below \<open>2^63\<close>, and any text that does not go on with a digit (\<open>rest\<close>); the suffix is
  the value of the digits minus 8000, and \<open>rest\<close> is ignored. Every other line is
  skipped.
\<close>

theorem extractSuffixFromEnv_first_recoverable:
  "(osReadFile w envPath = ReadOK (NonJSON data) \<longrightarrow>
      extractSuffixFromEnv w envPath
        = (case filter (\<lambda>l. snd (scanLines [l])) (splitLines data) of
             [] \<Rightarrow> (0, False)
           | l # _ \<Rightarrow> scanLines [l]))
   \<and> ((\<forall>bytes. osReadFile w envPath \<noteq> ReadOK (NonJSON bytes)) \<longrightarrow>
      extractSuffixFromEnv w envPath = (0, False))
   \<and> (scanLines [line] = (v, True) \<longleftrightarrow>
        (\<exists>sp sg ds rest.
           TrimSpace line = ''APP_PORT='' @ sp @ sg @ ds @ rest
           \<and> scanSkipSpace sp = Some []
           \<and> (sg = [] \<or> sg = ''+'')
           \<and> ds \<noteq> [] \<and> list_all isDigit ds
           \<and> (rest = [] \<or> \<not> isDigit (hd rest))
           \<and> 8000 \<le> digitsVal ds \<and> int (digitsVal ds) < 2 ^ 63
           \<and> v = word_of_nat (digitsVal ds) - 8000))
   \<and> (\<not> snd (scanLines [line]) \<longrightarrow> scanLines [line] = (0, False))"
proof -
  have a: "extractSuffixFromEnv w envPath
        = (case filter (\<lambda>l. snd (scanLines [l])) (splitLines data) of
             [] \<Rightarrow> (0, False) | l # _ \<Rightarrow> scanLines [l])"
    if "osReadFile w envPath = ReadOK (NonJSON data)"
    using that scanLines_first[of "splitLines data"] by (simp add: extractSuffixFromEnv_def)
  have b: "extractSuffixFromEnv w envPath = (0, False)"
    if "\<forall>bytes. osReadFile w envPath \<noteq> ReadOK (NonJSON bytes)"
    using that by (auto simp: extractSuffixFromEnv_def split: readResult.splits content.splits)
  let ?t = "TrimSpace line"
  have one: "scanLines [line] = (v, True) \<longleftrightarrow>
      HasPrefix ?t ''APP_PORT='' \<and> (\<exists>p. scanInt (drop 9 ?t) = Some p \<and> 8000 \<le> sint p \<and> v = p - 8000)"
    by (auto simp: Let_def Sscanf_def split: option.splits)
  have c: "scanLines [line] = (v, True) \<longleftrightarrow>
        (\<exists>sp sg ds rest.
           ?t = ''APP_PORT='' @ sp @ sg @ ds @ rest
           \<and> scanSkipSpace sp = Some []
           \<and> (sg = [] \<or> sg = ''+'')
           \<and> ds \<noteq> [] \<and> list_all isDigit ds
           \<and> (rest = [] \<or> \<not> isDigit (hd rest))
           \<and> 8000 \<le> digitsVal ds \<and> int (digitsVal ds) < 2 ^ 63
           \<and> v = word_of_nat (digitsVal ds) - 8000)" (is "?L \<longleftrightarrow> ?R")
  proof
    assume ?L
    with one obtain p where hp: "HasPrefix ?t ''APP_PORT=''"
      and sc: "scanInt (drop 9 ?t) = Some p \<and> 8000 \<le> sint p" and v: "v = p - 8000" by blast
    have nine: "length ''APP_PORT='' = 9" by simp
    from hp have tk: "take 9 ?t = ''APP_PORT=''" unfolding HasPrefix_def nine .
    have "?t = take 9 ?t @ drop 9 ?t" by (rule append_take_drop_id[symmetric])
    then have t: "?t = ''APP_PORT='' @ drop 9 ?t" unfolding tk .
    from sc[unfolded scanInt_recoverable] obtain sp sg ds rest where
      "drop 9 ?t = sp @ sg @ ds @ rest" "scanSkipSpace sp = Some []" "sg = [] \<or> sg = ''+''"
      "ds \<noteq> []" "list_all isDigit ds" "rest = [] \<or> \<not> isDigit (hd rest)"
      "8000 \<le> digitsVal ds" "int (digitsVal ds) < 2 ^ 63" "p = word_of_nat (digitsVal ds)"
      by blast
    with t v show ?R by metis
  next
    assume ?R
    then obtain sp sg ds rest where
      t: "?t = ''APP_PORT='' @ sp @ sg @ ds @ rest" and
      r: "scanSkipSpace sp = Some []" "sg = [] \<or> sg = ''+''"
      "ds \<noteq> []" "list_all isDigit ds" "rest = [] \<or> \<not> isDigit (hd rest)"
      "8000 \<le> digitsVal ds" "int (digitsVal ds) < 2 ^ 63"
      and v: "v = word_of_nat (digitsVal ds) - 8000"
      by blast
    have hp: "HasPrefix ?t ''APP_PORT=''" unfolding t by (simp add: HasPrefix_def)
    have dr: "drop 9 ?t = sp @ sg @ ds @ rest" unfolding t by simp
    have "scanInt (drop 9 ?t) = Some (word_of_nat (digitsVal ds))
        \<and> 8000 \<le> sint (word_of_nat (digitsVal ds) :: goint)"
      unfolding scanInt_recoverable using dr r by blast
    with hp v one show ?L by blast
  qed
  have d: "scanLines [line] = (0, False)" if "\<not> snd (scanLines [line])"
    using that by (auto simp: Let_def split: option.splits if_splits)
  show ?thesis using a b c d by blast
qed

text \<open>
  The scenarios of the specification and of the repository's test: \<^verbatim>\<open>APP_PORT=8051\<close>
  recovers 51, also after white space, before a comment or an underscore, and behind
  a space and a plus sign; \<^verbatim>\<open>APP_PORT=500\<close> recovers nothing, and neither does a project
  without a \<^verbatim>\<open>.env\<close> file.
\<close>

theorem extractSuffixFromEnv_first_recoverable_witness:
  "osReadFile (envWorld (''DEBUG=true'' @ [CHR 0x0A] @ ''APP_PORT=8051'' @ [CHR 0x0A] @ ''DB_DATABASE=testing''))
       ''/a/.env''
     = ReadOK (NonJSON (''DEBUG=true'' @ [CHR 0x0A] @ ''APP_PORT=8051'' @ [CHR 0x0A] @ ''DB_DATABASE=testing''))
   \<and> extractSuffixFromEnv
        (envWorld (''DEBUG=true'' @ [CHR 0x0A] @ ''APP_PORT=8051'' @ [CHR 0x0A] @ ''DB_DATABASE=testing''))
        ''/a/.env'' = (51, True)
   \<and> osReadFile (devWorld []) ''/a/.env'' = ReadNotExist
   \<and> extractSuffixFromEnv (devWorld []) ''/a/.env'' = (0, False)
   \<and> scanLines [''APP_PORT=8051''] = (51, True)
   \<and> scanLines [''  APP_PORT=8051 # local''] = (51, True)
   \<and> scanLines [''APP_PORT=8051_''] = (51, True)
   \<and> scanLines [''APP_PORT= +8051''] = (51, True)
   \<and> \<not> snd (scanLines [''APP_PORT=500''])
   \<and> scanLines [''APP_PORT=500''] = (0, False)"
proof -
  let ?text = "''DEBUG=true'' @ [CHR 0x0A] @ ''APP_PORT=8051'' @ [CHR 0x0A] @ ''DB_DATABASE=testing''"
  note inst = extractSuffixFromEnv_first_recoverable[where w = "envWorld ?text" and envPath = "''/a/.env''" and data = ?text]
  have r: "osReadFile (envWorld ?text) ''/a/.env'' = ReadOK (NonJSON ?text)"
    by (simp add: envWorld_def devWorld_def os_defs)
  have n: "osReadFile (devWorld []) ''/a/.env'' = ReadNotExist"
    by (simp add: devWorld_def os_defs)
  have f: "filter (\<lambda>l. snd (scanLines [l])) (splitLines ?text) = [''APP_PORT=8051'']"
    by (simp add: scan_defs)
  have x1: "\<exists>sp sg ds rest. TrimSpace ''APP_PORT=8051'' = ''APP_PORT='' @ sp @ sg @ ds @ rest
           \<and> scanSkipSpace sp = Some [] \<and> (sg = [] \<or> sg = ''+'')
           \<and> ds \<noteq> [] \<and> list_all isDigit ds \<and> (rest = [] \<or> \<not> isDigit (hd rest))
           \<and> 8000 \<le> digitsVal ds \<and> int (digitsVal ds) < 2 ^ 63
           \<and> (51 :: goint) = word_of_nat (digitsVal ds) - 8000"
    by (rule exI[of _ "[]"], rule exI[of _ "[]"], rule exI[of _ "''8051''"], rule exI[of _ "[]"])
       (simp add: scan_defs)
  have x2: "\<exists>sp sg ds rest. TrimSpace ''  APP_PORT=8051 # local'' = ''APP_PORT='' @ sp @ sg @ ds @ rest
           \<and> scanSkipSpace sp = Some [] \<and> (sg = [] \<or> sg = ''+'')
           \<and> ds \<noteq> [] \<and> list_all isDigit ds \<and> (rest = [] \<or> \<not> isDigit (hd rest))
           \<and> 8000 \<le> digitsVal ds \<and> int (digitsVal ds) < 2 ^ 63
           \<and> (51 :: goint) = word_of_nat (digitsVal ds) - 8000"
    by (rule exI[of _ "[]"], rule exI[of _ "[]"], rule exI[of _ "''8051''"], rule exI[of _ "'' # local''"])
       (simp add: scan_defs)
  have x3: "\<exists>sp sg ds rest. TrimSpace ''APP_PORT=8051_'' = ''APP_PORT='' @ sp @ sg @ ds @ rest
           \<and> scanSkipSpace sp = Some [] \<and> (sg = [] \<or> sg = ''+'')
           \<and> ds \<noteq> [] \<and> list_all isDigit ds \<and> (rest = [] \<or> \<not> isDigit (hd rest))
           \<and> 8000 \<le> digitsVal ds \<and> int (digitsVal ds) < 2 ^ 63
           \<and> (51 :: goint) = word_of_nat (digitsVal ds) - 8000"
    by (rule exI[of _ "[]"], rule exI[of _ "[]"], rule exI[of _ "''8051''"], rule exI[of _ "''_''"])
       (simp add: scan_defs)
  have x4: "\<exists>sp sg ds rest. TrimSpace ''APP_PORT= +8051'' = ''APP_PORT='' @ sp @ sg @ ds @ rest
           \<and> scanSkipSpace sp = Some [] \<and> (sg = [] \<or> sg = ''+'')
           \<and> ds \<noteq> [] \<and> list_all isDigit ds \<and> (rest = [] \<or> \<not> isDigit (hd rest))
           \<and> 8000 \<le> digitsVal ds \<and> int (digitsVal ds) < 2 ^ 63
           \<and> (51 :: goint) = word_of_nat (digitsVal ds) - 8000"
    by (rule exI[of _ "'' ''"], rule exI[of _ "''+''"], rule exI[of _ "''8051''"], rule exI[of _ "[]"])
       (simp add: scan_defs)
  from inst[where line = "''APP_PORT=8051''" and v = 51] x1
  have s1: "scanLines [''APP_PORT=8051''] = (51, True)" by blast
  from inst[where line = "''  APP_PORT=8051 # local''" and v = 51] x2
  have s2: "scanLines [''  APP_PORT=8051 # local''] = (51, True)" by blast
  from inst[where line = "''APP_PORT=8051_''" and v = 51] x3
  have s3: "scanLines [''APP_PORT=8051_''] = (51, True)" by blast
  from inst[where line = "''APP_PORT= +8051''" and v = 51] x4
  have s4: "scanLines [''APP_PORT= +8051''] = (51, True)" by blast
  have ns: "\<not> snd (scanLines [''APP_PORT=500''])" by (simp add: scan_defs)
  from inst[where line = "''APP_PORT=500''" and v = 0] ns
  have s5: "scanLines [''APP_PORT=500''] = (0, False)" by blast
  from inst[where line = "''APP_PORT=8051''" and v = 51] r f s1
  have e: "extractSuffixFromEnv (envWorld ?text) ''/a/.env'' = (51, True)" by simp
  from extractSuffixFromEnv_first_recoverable[where w = "devWorld []" and envPath = "''/a/.env''" and data = "[]" and line = "[]" and v = 0] n
  have e0: "extractSuffixFromEnv (devWorld []) ''/a/.env'' = (0, False)" by simp
  show ?thesis using r e n e0 s1 s2 s3 s4 ns s5 by simp
qed

text \<open>
  C4 as stated fails: the value of \<^verbatim>\<open>APP_PORT=9000x\<close> is not a whole decimal integer,
  so the rule of the specification goes on to the second line and recovers 51; the
  code reads 9000 from the first line and recovers 1000.
\<close>

theorem extractSuffixFromEnv_first_recoverable_counterexample:
  "extractSuffixFromEnv (envWorld (''APP_PORT=9000x'' @ [CHR 0x0A] @ ''APP_PORT=8051'')) ''/a/.env''
     = (1000, True)
   \<and> specRecover (splitLines (''APP_PORT=9000x'' @ [CHR 0x0A] @ ''APP_PORT=8051'')) = (51, True)"
  by (simp add: extractSuffixFromEnv_def envWorld_def devWorld_def os_defs scan_defs)

text \<open>
  C5. With the registry loaded and the project directory resolved, the collision
  checker finds a conflict exactly when some path other than the project's own holds
  the suffix; the path it returns is then such a path, and without a conflict it
  returns the empty path. This holds for every order \<open>ks\<close> in which the loop may
  visit the keys.
\<close>

theorem isSuffixInUseByOther_conflict:
  assumes load: "loadPortState w = Inr (st, existed)"
    and abs: "Abs w p = Inr absDir"
    and ks: "set ks = keysOf (Projects st)"
  shows "(snd (isSuffixInUseByOther w ks p s)
            \<longleftrightarrow> (\<exists>other. other \<noteq> absDir \<and> mapIndex (Projects st) other = Some s))
       \<and> (snd (isSuffixInUseByOther w ks p s)
            \<longrightarrow> fst (isSuffixInUseByOther w ks p s) \<noteq> absDir
              \<and> mapIndex (Projects st) (fst (isSuffixInUseByOther w ks p s)) = Some s)
       \<and> (\<not> snd (isSuffixInUseByOther w ks p s)
            \<longrightarrow> isSuffixInUseByOther w ks p s = ([], False))"
proof -
  have eq: "isSuffixInUseByOther w ks p s = findOther (goRange (Projects st) ks) absDir s"
    using load abs by (simp add: isSuffixInUseByOther_def)
  have mem: "(k, s) \<in> set (goRange (Projects st) ks) \<longleftrightarrow> mapIndex (Projects st) k = Some s" for k
    using ks mapIndex_keysOf[of "Projects st" k s] by (auto simp: mapIndex_goRange)
  show ?thesis
    unfolding eq using findOther_path[of "goRange (Projects st) ks" absDir s]
      findOther_none[of "goRange (Projects st) ks" absDir s]
    by (simp add: findOther_found mem)
qed

text \<open>
  The scenario of the specification: registry \<^verbatim>\<open>{"/a": 51, "/b": 52}\<close>.
\<close>

theorem isSuffixInUseByOther_conflict_witness:
  "loadPortState (devWorld [(stateFileName, JSONText registryAB)])
     = Inr (\<lparr>MaxSuffix = 52, Projects = Some [(''/a'', 51), (''/b'', 52)]\<rparr>, True)
   \<and> Abs (devWorld [(stateFileName, JSONText registryAB)]) ''/c'' = Inr ''/c''
   \<and> Abs (devWorld [(stateFileName, JSONText registryAB)]) ''/a'' = Inr ''/a''
   \<and> set [''/b'', ''/a''] = keysOf (Some [(''/a'', 51), (''/b'', 52)])
   \<and> isSuffixInUseByOther (devWorld [(stateFileName, JSONText registryAB)]) [''/b'', ''/a''] ''/c'' 51
       = (''/a'', True)
   \<and> isSuffixInUseByOther (devWorld [(stateFileName, JSONText registryAB)]) [''/b'', ''/a''] ''/a'' 51
       = ([], False)"
proof -
  let ?w = "devWorld [(stateFileName, JSONText registryAB)]"
  let ?st = "\<lparr>MaxSuffix = 52, Projects = Some [(''/a'', 51), (''/b'', 52)]\<rparr>"
  have l: "loadPortState ?w = Inr (?st, True)" by (rule devWorld_load_AB)
  have c: "Abs ?w ''/c'' = Inr ''/c''" by (simp add: path_defs)
  have a: "Abs ?w ''/a'' = Inr ''/a''" by (simp add: path_defs)
  have k: "set [''/b'', ''/a''] = keysOf (Projects ?st)" by (auto simp: keysOf_def)
  have m: "mapIndex (Some [(''/a'', 51 :: goint), (''/b'', 52)]) x = Some 51 \<longleftrightarrow> x = ''/a''" for x
    by (simp add: mapIndex_def)
  from isSuffixInUseByOther_conflict[OF l c k, of 51] have 1: "isSuffixInUseByOther ?w [''/b'', ''/a''] ''/c'' 51 = (''/a'', True)"
    by (cases "isSuffixInUseByOther ?w [''/b'', ''/a''] ''/c'' 51") (auto simp: m)
  from isSuffixInUseByOther_conflict[OF l a k, of 51] have 2: "isSuffixInUseByOther ?w [''/b'', ''/a''] ''/a'' 51 = ([], False)"
    by (auto simp: m)
  show ?thesis using l c a k 1 2 by simp
qed

text \<open>
  C6. None of \<^verbatim>\<open>saveProjectSuffix\<close>, \<^verbatim>\<open>RemoveProject\<close> and \<^verbatim>\<open>CleanOrphanedProjects\<close>
  leaves a state file whose \<open>MaxSuffix\<close> is below the one it loaded, whatever the
  call returns.
\<close>

theorem MaxSuffix_never_decreases:
  assumes load: "loadPortState w = Inr (st, existed)"
  shows "(saveProjectSuffix w p s = (wa, ea) \<and> loadPortState wa = Inr (sta, exa)
            \<longrightarrow> sint (MaxSuffix st) \<le> sint (MaxSuffix sta))
       \<and> (RemoveProject w q = (wb, eb) \<and> loadPortState wb = Inr (stb, exb)
            \<longrightarrow> sint (MaxSuffix st) \<le> sint (MaxSuffix stb))
       \<and> (CleanOrphanedProjects w ks = (wc, n, ec) \<and> loadPortState wc = Inr (stc, exc)
            \<longrightarrow> sint (MaxSuffix st) \<le> sint (MaxSuffix stc))"
proof -
  have same: "sint (MaxSuffix st) \<le> sint (MaxSuffix st')" if "loadPortState w = Inr (st', ex')" for st' ex'
    using that load by simp
  have viaSave: "sint (MaxSuffix st) \<le> sint (MaxSuffix st')"
    if "save w s2 = (w', e)" "loadPortState w' = Inr (st', ex')" "sint (MaxSuffix st) \<le> sint (MaxSuffix s2)"
    for s2 w' e st' ex'
    using save_MaxSuffix[OF that(1,2)] that(2,3) same by auto
  have 1: "sint (MaxSuffix st) \<le> sint (MaxSuffix sta)"
    if r: "saveProjectSuffix w p s = (wa, ea)" and l: "loadPortState wa = Inr (sta, exa)"
  proof (cases "Abs w p")
    case (Inl err)
    with r load have "wa = w" by (simp add: saveProjectSuffix_def)
    with l same show ?thesis by simp
  next
    case (Inr a)
    show ?thesis
    proof (cases "Projects st")
      case None
      with r load Inr have "wa = w" by (simp add: saveProjectSuffix_def)
      with l same show ?thesis by simp
    next
      case (Some m)
      let ?stb = "if sint (MaxSuffix st) < sint s
                     then st\<lparr>Projects := Some (AList.update a s m), MaxSuffix := s\<rparr>
                     else st\<lparr>Projects := Some (AList.update a s m)\<rparr>"
      have sv: "save w ?stb = (wa, ea)"
        using r load Inr Some by (simp add: saveProjectSuffix_def Let_def)
      have "sint (MaxSuffix st) \<le> sint (MaxSuffix ?stb)" by simp
      from viaSave[OF sv l this] show ?thesis .
    qed
  qed
  have 2: "sint (MaxSuffix st) \<le> sint (MaxSuffix stb)"
    if r: "RemoveProject w q = (wb, eb)" and l: "loadPortState wb = Inr (stb, exb)"
  proof (cases "Abs w q")
    case (Inl err)
    with r load have "wb = w" by (simp add: RemoveProject_def)
    with l same show ?thesis by simp
  next
    case (Inr a)
    show ?thesis
    proof (cases "mapIndex (Projects st) a")
      case None
      with r load Inr have "wb = w" by (simp add: RemoveProject_def)
      with l same show ?thesis by simp
    next
      case (Some v)
      with r load Inr have sv: "save w (st\<lparr>Projects := mapDelete (Projects st) a\<rparr>) = (wb, eb)"
        by (simp add: RemoveProject_def)
      from viaSave[OF sv l] show ?thesis by simp
    qed
  qed
  have 3: "sint (MaxSuffix st) \<le> sint (MaxSuffix stc)"
    if r: "CleanOrphanedProjects w ks = (wc, n, ec)" and l: "loadPortState wc = Inr (stc, exc)"
  proof (cases "orphans w (Projects st) ks = []")
    case True
    with r have "wc = w" by (simp add: CleanOrphanedProjects_loaded[OF load])
    with l same show ?thesis by simp
  next
    case False
    let ?st' = "st\<lparr>Projects := foldl mapDelete (Projects st) (orphans w (Projects st) ks)\<rparr>"
    obtain w' e where sv: "save w ?st' = (w', e)" by (cases "save w ?st'")
    with r False have "wc = w'"
      by (auto simp: CleanOrphanedProjects_loaded[OF load] split: option.splits)
    with viaSave[OF sv] l show ?thesis by simp
  qed
  show ?thesis using 1 2 3 by blast
qed

theorem MaxSuffix_never_decreases_witness:
  "loadPortState (devWorld [(stateFileName, JSONText registryAB)])
     = Inr (\<lparr>MaxSuffix = 52, Projects = Some [(''/a'', 51), (''/b'', 52)]\<rparr>, True)
   \<and> loadPortState (fst (saveProjectSuffix (devWorld [(stateFileName, JSONText registryAB)]) ''/c'' 60))
     = Inr (\<lparr>MaxSuffix = 60, Projects = Some [(''/a'', 51), (''/b'', 52), (''/c'', 60)]\<rparr>, True)
   \<and> loadPortState (fst (RemoveProject (devWorld [(stateFileName, JSONText registryAB)]) ''/b''))
     = Inr (\<lparr>MaxSuffix = 52, Projects = Some [(''/a'', 51)]\<rparr>, True)
   \<and> loadPortState (fst (CleanOrphanedProjects (devWorld [(stateFileName, JSONText registryAB)]) [''/a'', ''/b'']))
     = Inr (\<lparr>MaxSuffix = 52, Projects = Some [(''/a'', 51), (''/b'', 52)]\<rparr>, True)
   \<and> sint (52 :: goint) \<le> sint (60 :: goint)
   \<and> sint (52 :: goint) \<le> sint (52 :: goint)"
proof -
  let ?w = "devWorld [(stateFileName, JSONText registryAB)]"
  let ?st = "\<lparr>MaxSuffix = 52, Projects = Some [(''/a'', 51), (''/b'', 52)]\<rparr>"
  let ?sta = "\<lparr>MaxSuffix = 60, Projects = Some [(''/a'', 51), (''/b'', 52), (''/c'', 60)]\<rparr>"
  let ?stb = "\<lparr>MaxSuffix = 52, Projects = Some [(''/a'', 51 :: goint)]\<rparr>"
  have l: "loadPortState ?w = Inr (?st, True)" by (rule devWorld_load_AB)
  have l1: "loadPortState (fst (saveProjectSuffix ?w ''/c'' 60)) = Inr (?sta, True)"
    by (simp add: eval_defs)
  have l2: "loadPortState (fst (RemoveProject ?w ''/b'')) = Inr (?stb, True)"
    by (simp add: eval_defs)
  have l3: "loadPortState (fst (CleanOrphanedProjects ?w [''/a'', ''/b''])) = Inr (?st, True)"
    by (simp add: eval_defs)
  note inst = MaxSuffix_never_decreases[OF l, where p = "''/c''" and s = 60
      and wa = "fst (saveProjectSuffix ?w ''/c'' 60)" and ea = "snd (saveProjectSuffix ?w ''/c'' 60)"
      and sta = ?sta and exa = True and q = "''/b''"
      and wb = "fst (RemoveProject ?w ''/b'')" and eb = "snd (RemoveProject ?w ''/b'')"
      and stb = ?stb and exb = True and ks = "[''/a'', ''/b'']"
      and wc = "fst (CleanOrphanedProjects ?w [''/a'', ''/b''])"
      and n = "fst (snd (CleanOrphanedProjects ?w [''/a'', ''/b'']))"
      and ec = "snd (snd (CleanOrphanedProjects ?w [''/a'', ''/b'']))"
      and stc = ?st and exc = True]
  from inst l1 have a: "sint (MaxSuffix ?st) \<le> sint (MaxSuffix ?sta)" by simp
  from inst l2 have b: "sint (MaxSuffix ?st) \<le> sint (MaxSuffix ?stb)" by simp
  from inst l3 have c: "sint (MaxSuffix ?st) \<le> sint (MaxSuffix ?st)" by simp
  show ?thesis using l l1 l2 l3 a b c by simp
qed

text \<open>
  C7. A successful \<^verbatim>\<open>save\<close> followed by \<^verbatim>\<open>loadPortState\<close> is to give back the registry
  that was saved, with existed true. \<^verbatim>\<open>encoding/json\<close> writes every key coerced to valid
  UTF-8, so a registry that holds the directory \<^verbatim>\<open>/srv/caf\<close> followed by the Latin-1
  byte E9 is saved without error and loaded back with the key \<^verbatim>\<open>/srv/caf\<close> followed by
  U+FFFD: the assignment of the directory is gone and another path holds its suffix.
\<close>

theorem save_load_non_utf8_key_changed:
  "save (devWorld []) latin1Registry = (fst (save (devWorld []) latin1Registry), None)
   \<and> loadPortState (fst (save (devWorld []) latin1Registry))
        = Inr (\<lparr>MaxSuffix = 48, Projects = Some [(''/srv/caf'' @ runeError, 48)]\<rparr>, True)
   \<and> mapIndex (Projects latin1Registry) latin1Dir = Some 48
   \<and> mapIndex (Some [(''/srv/caf'' @ runeError, 48)]) latin1Dir = None"
  by (simp add: latin1Registry_def eval_defs)




text \<open>
  C9. With the registry loaded and the directory resolved: when the absolute path has
  no entry, \<^verbatim>\<open>RemoveProject\<close> returns the NotRegistered error and the world is
  untouched; when it has one and the call succeeds, the state file loads again with
  that entry removed, every other entry and \<open>MaxSuffix\<close> unchanged.
\<close>

theorem RemoveProject_registered:
  assumes load: "loadPortState w = Inr (st, existed)"
    and abs: "Abs w p = Inr absDir"
  shows "(mapIndex (Projects st) absDir = None
            \<longrightarrow> RemoveProject w p = (w, Some (NotRegistered absDir)))
       \<and> (mapIndex (Projects st) absDir \<noteq> None \<and> RemoveProject w p = (w', None)
            \<longrightarrow> (\<exists>st'. loadPortState w' = Inr (st', True)
                   \<and> MaxSuffix st' = MaxSuffix st
                   \<and> mapIndex (Projects st') = (mapIndex (Projects st))(absDir := None)))"
proof -
  have 1: "RemoveProject w p = (w, Some (NotRegistered absDir))"
    if "mapIndex (Projects st) absDir = None"
    using load abs that by (simp add: RemoveProject_def)
  have 2: "\<exists>st'. loadPortState w' = Inr (st', True)
                   \<and> MaxSuffix st' = MaxSuffix st
                   \<and> mapIndex (Projects st') = (mapIndex (Projects st))(absDir := None)"
    if some: "mapIndex (Projects st) absDir \<noteq> None" and ok: "RemoveProject w p = (w', None)"
  proof -
    let ?st2 = "st\<lparr>Projects := mapDelete (Projects st) absDir\<rparr>"
    have sv: "save w ?st2 = (w', None)"
      using load abs some ok by (auto simp: RemoveProject_def)
    have wf2: "wfState ?st2" using loadPortState_wf[OF load] by (rule wfState_mapDelete)
    from load_after_save_wf[OF sv wf2] mapIndex_sorted[OF wf2]
    show ?thesis by (simp add: mapIndex_mapDelete)
  qed
  show ?thesis using 1 2 by blast
qed

theorem RemoveProject_registered_witness:
  "loadPortState (devWorld [(stateFileName, JSONText registryAB)])
     = Inr (\<lparr>MaxSuffix = 52, Projects = Some [(''/a'', 51), (''/b'', 52)]\<rparr>, True)
   \<and> Abs (devWorld [(stateFileName, JSONText registryAB)]) ''/c'' = Inr ''/c''
   \<and> Abs (devWorld [(stateFileName, JSONText registryAB)]) ''/a'' = Inr ''/a''
   \<and> mapIndex (Some [(''/a'', 51), (''/b'', 52)]) ''/c'' = None
   \<and> mapIndex (Some [(''/a'', 51), (''/b'', 52)]) ''/a'' = Some 51
   \<and> RemoveProject (devWorld [(stateFileName, JSONText registryAB)]) ''/c''
        = (devWorld [(stateFileName, JSONText registryAB)], Some (NotRegistered ''/c''))
   \<and> RemoveProject (devWorld [(stateFileName, JSONText registryAB)]) ''/a''
        = (fst (RemoveProject (devWorld [(stateFileName, JSONText registryAB)]) ''/a''), None)
   \<and> loadPortState (fst (RemoveProject (devWorld [(stateFileName, JSONText registryAB)]) ''/a''))
        = Inr (\<lparr>MaxSuffix = 52, Projects = Some [(''/b'', 52)]\<rparr>, True)"
proof -
  let ?w = "devWorld [(stateFileName, JSONText registryAB)]"
  let ?st = "\<lparr>MaxSuffix = 52, Projects = Some [(''/a'', 51), (''/b'', 52)]\<rparr>"
  have l: "loadPortState ?w = Inr (?st, True)" by (rule devWorld_load_AB)
  have c: "Abs ?w ''/c'' = Inr ''/c''" and a: "Abs ?w ''/a'' = Inr ''/a''"
    by (simp_all add: path_defs)
  have mc: "mapIndex (Projects ?st) ''/c'' = None" and ma: "mapIndex (Projects ?st) ''/a'' = Some 51"
    by (simp_all add: mapIndex_def)
  have ok: "RemoveProject ?w ''/a'' = (fst (RemoveProject ?w ''/a''), None)"
    by (simp add: eval_defs)
  have l2: "loadPortState (fst (RemoveProject ?w ''/a''))
        = Inr (\<lparr>MaxSuffix = 52, Projects = Some [(''/b'', 52)]\<rparr>, True)"
    by (simp add: eval_defs)
  from RemoveProject_registered[OF l c, of "fst (RemoveProject ?w ''/a'')"] mc
  have 1: "RemoveProject ?w ''/c'' = (?w, Some (NotRegistered ''/c''))" by simp
  from RemoveProject_registered[OF l a, of "fst (RemoveProject ?w ''/a'')"] ma ok
  have "\<exists>st'. loadPortState (fst (RemoveProject ?w ''/a'')) = Inr (st', True)" by auto
  with l c a mc ma ok l2 1 show ?thesis by simp
qed

text \<open>
  C10. When loading the registry fails, the collision checker answers the empty path
  and false; a state file that is no JSON text, or that may not be read, is such a
  failure.
\<close>

theorem isSuffixInUseByOther_load_failure:
  "(loadPortState w = Inl e \<longrightarrow> isSuffixInUseByOther w ks p s = ([], False))
   \<and> (getPortStatePath w = Inr path \<and>
        (fs w path = Regular (NonJSON bytes) \<or> fs w path = NoAccess)
        \<longrightarrow> (\<exists>e. loadPortState w = Inl e) \<and> isSuffixInUseByOther w ks p s = ([], False))"
  by (auto simp: isSuffixInUseByOther_def loadPortState_def osReadFile_def)

theorem isSuffixInUseByOther_load_failure_witness:
  "loadPortState (devWorld [(stateFileName, NonJSON ''max_suffix = 52'')])
     = Inl UnmarshalError
   \<and> isSuffixInUseByOther
        (devWorld [(stateFileName, NonJSON ''max_suffix = 52'')])
        [] ''/c'' 51 = ([], False)"
proof -
  let ?w = "devWorld [(stateFileName, NonJSON ''max_suffix = 52'')]"
  have l: "loadPortState ?w = Inl UnmarshalError"
    by (simp add: loadPortState_def devWorld_path) (simp add: devWorld_def stateFileName_def os_defs)
  from isSuffixInUseByOther_load_failure[of ?w UnmarshalError "[]" "''/c''" 51] l show ?thesis by simp
qed

end
